theory Spec2Isabelle
  imports Main "HOL-Library.Sublist"
begin

section \<open>medpy.io.load: image loading by suffix routing with brute-force fallback\<close>

text \<open>
  The development embeds \<^verbatim>\<open>medpy/io/load.py\<close>: the dispatcher \<^verbatim>\<open>load\<close> and the three
  private loaders \<^verbatim>\<open>__load_nibabel\<close>, \<^verbatim>\<open>__load_pydicom\<close> and \<^verbatim>\<open>__load_itk\<close>.
  The third-party libraries and the file system are parameters of the model (a record
  of operations on an abstract world); every call into them is recorded in a trace, so
  that which backend was invoked, in which order and how often, is part of the result.
  The source's parameter \<^verbatim>\<open>image\<close>, the path of the file, is called \<open>path\<close> here. Calls
  of the logger return and leave no mark on the control flow; they are left out.
\<close>

subsection \<open>Python exceptions\<close>

text \<open>
  An exception is its class and the text \<^verbatim>\<open>str(e)\<close> gives. Every class here derives
  from \<^verbatim>\<open>Exception\<close>, which is what \<^verbatim>\<open>except Exception\<close> catches; signals outside that
  hierarchy (\<^verbatim>\<open>KeyboardInterrupt\<close>, \<^verbatim>\<open>SystemExit\<close>) are not failures of a loader and are
  not modelled.
\<close>

datatype exc_class =
    ImportError
  | KeyError
  | InvalidDicomError
  | ImageLoadingError
  | ImageTypeError
  | DependencyError
  | OtherException

datatype py_exc = Exc (cls: exc_class) (str_of: string)

subsection \<open>Arrays\<close>

text \<open>
  An n-dimensional array is its shape and its element at each index. The two array
  operations the loaders call are numpy's (scipy re-exports them): \<^verbatim>\<open>squeeze\<close> removes
  every axis of length one, \<^verbatim>\<open>transpose\<close> without an axes argument reverses the order
  of the axes.
\<close>

record 'a ndarray =
  shape :: "nat list"
  item :: "nat list \<Rightarrow> 'a"

fun unsqueeze_index :: "nat list \<Rightarrow> nat list \<Rightarrow> nat list" where
  "unsqueeze_index [] idx = []"
| "unsqueeze_index (d # ds) idx =
     (if d = 1 then 0 # unsqueeze_index ds idx
      else (case idx of [] \<Rightarrow> [] | i # rest \<Rightarrow> i # unsqueeze_index ds rest))"

definition squeeze :: "'a ndarray \<Rightarrow> 'a ndarray" where
  "squeeze a =
     \<lparr>shape = filter (\<lambda>d. d \<noteq> 1) (shape a),
      item = (\<lambda>idx. item a (unsqueeze_index (shape a) idx))\<rparr>"

definition transpose_arr :: "'a ndarray \<Rightarrow> 'a ndarray" where
  "transpose_arr a = \<lparr>shape = rev (shape a), item = (\<lambda>idx. item a (rev idx))\<rparr>"

subsection \<open>The world outside: file system and third-party modules\<close>

datatype backend = Nibabel | Pydicom | Itk

datatype event =
    PathExists string
  | Invoke backend string
  | Import string
  | NibabelLoad string
  | GetData
  | DicomReadFile string bool
  | PixelArray
  | ItkuGetImageType string
  | ItkRead string
  | ItkuGetArray
  | ItkCopy
  | ItkCopyPointer

type_synonym ('w, 'r) ext = "'w \<Rightarrow> (py_exc + 'r) \<times> 'w"

text \<open>
  \<open>'w\<close> is the state of the world (files, installed modules), \<open>'h\<close> the opaque objects
  the libraries hand out (image objects, datasets, ITK image types), \<open>'a\<close> the pixel
  type. \<open>dicom_read_file path force\<close> is \<^verbatim>\<open>dicom.read_file(image)\<close> or, with
  \<open>force\<close>, \<^verbatim>\<open>dicom.read_file(image, force=True)\<close>. \<open>itk_read t path\<close> stands for
  \<^verbatim>\<open>itk.ImageFileReader[t].New()\<close>, \<^verbatim>\<open>SetFileName\<close>, \<^verbatim>\<open>Update\<close>, \<^verbatim>\<open>GetOutput\<close>;
  \<open>itk_copy\<close> for \<^verbatim>\<open>img.New()\<close> with \<^verbatim>\<open>Graft(img)\<close>, \<open>itk_copy_pointer\<close> for the same
  through \<^verbatim>\<open>img.GetPointer()\<close>. \<open>itku_getImageTypeFromFile\<close> returns \<open>None\<close> for a
  falsy result.
\<close>

record ('w, 'h, 'a) libs =
  os_path_exists :: "string \<Rightarrow> 'w \<Rightarrow> bool"
  import_module :: "string \<Rightarrow> ('w, unit) ext"
  nibabel_load :: "string \<Rightarrow> ('w, 'h) ext"
  get_data :: "'h \<Rightarrow> ('w, 'a ndarray) ext"
  dicom_read_file :: "string \<Rightarrow> bool \<Rightarrow> ('w, 'h) ext"
  pixel_array :: "'h \<Rightarrow> ('w, 'a ndarray) ext"
  itku_getImageTypeFromFile :: "string \<Rightarrow> ('w, 'h option) ext"
  itk_read :: "'h \<Rightarrow> string \<Rightarrow> ('w, 'h) ext"
  itku_getArrayFromImage :: "'h \<Rightarrow> ('w, 'a ndarray) ext"
  itk_copy :: "'h \<Rightarrow> ('w, 'h) ext"
  itk_copy_pointer :: "'h \<Rightarrow> ('w, 'h) ext"

record 'w sys =
  world :: 'w
  trace :: "event list"

type_synonym ('w, 'r) prog = "'w sys \<Rightarrow> (py_exc + 'r) \<times> 'w sys"

definition record_event :: "event \<Rightarrow> 'w sys \<Rightarrow> 'w sys" where
  "record_event ev s = s\<lparr>trace := trace s @ [ev]\<rparr>"

definition call :: "event \<Rightarrow> ('w, 'r) ext \<Rightarrow> ('w, 'r) prog" where
  "call ev f s =
     (case f (world s) of (r, w') \<Rightarrow> (r, \<lparr>world = w', trace = trace s @ [ev]\<rparr>))"

definition returns :: "'r \<Rightarrow> ('w, 'r) prog" where
  "returns r s = (Inr r, s)"

definition raises :: "py_exc \<Rightarrow> ('w, 'r) prog" where
  "raises e s = (Inl e, s)"

definition and_then :: "('w, 'r) prog \<Rightarrow> ('r \<Rightarrow> ('w, 'q) prog) \<Rightarrow> ('w, 'q) prog" where
  "and_then m f s = (case m s of (Inl e, s') \<Rightarrow> (Inl e, s') | (Inr r, s') \<Rightarrow> f r s')"

definition try_except :: "('w, 'r) prog \<Rightarrow> (py_exc \<Rightarrow> ('w, 'r) prog) \<Rightarrow> ('w, 'r) prog" where
  "try_except m h s = (case m s of (Inl e, s') \<Rightarrow> h e s' | (Inr r, s') \<Rightarrow> (Inr r, s'))"

subsection \<open>The three loaders\<close>

definition load_nibabel ::
  "('w, 'h, 'a) libs \<Rightarrow> string \<Rightarrow> ('w, 'a ndarray \<times> 'h) prog" where
  "load_nibabel env path =
     and_then (call (Import ''nibabel'') (import_module env ''nibabel'')) (\<lambda>_.
     and_then (call (NibabelLoad path) (nibabel_load env path)) (\<lambda>img.
     and_then (call GetData (get_data env img)) (\<lambda>d.
     returns (squeeze d, img))))"

definition load_pydicom ::
  "('w, 'h, 'a) libs \<Rightarrow> string \<Rightarrow> ('w, 'a ndarray \<times> 'h) prog" where
  "load_pydicom env path =
     and_then (call (Import ''dicom'') (import_module env ''dicom'')) (\<lambda>_.
     and_then
       (try_except (call (DicomReadFile path False) (dicom_read_file env path False))
          (\<lambda>e. if cls e = InvalidDicomError
                then call (DicomReadFile path True) (dicom_read_file env path True)
                else raises e)) (\<lambda>img.
     and_then (call PixelArray (pixel_array env img)) (\<lambda>arr.
     returns (transpose_arr arr, img))))"

definition load_itk ::
  "('w, 'h, 'a) libs \<Rightarrow> string \<Rightarrow> ('w, 'a ndarray \<times> 'h) prog" where
  "load_itk env path =
     and_then (call (Import ''itk'') (import_module env ''itk'')) (\<lambda>_.
     and_then (call (Import ''itku'') (import_module env ''itku'')) (\<lambda>_.
     and_then (call (ItkuGetImageType path) (itku_getImageTypeFromFile env path))
       (\<lambda>image_type.
     (case image_type of
        None \<Rightarrow> raises (Exc ImageLoadingError ''This image can not be loaded with ITK.'')
      | Some t \<Rightarrow>
     and_then (call (ItkRead path) (itk_read env t path)) (\<lambda>img.
     and_then (call ItkuGetArray (itku_getArrayFromImage env img)) (\<lambda>arr.
     and_then
       (try_except (call ItkCopy (itk_copy env img))
          (\<lambda>e. call ItkCopyPointer (itk_copy_pointer env img))) (\<lambda>img_copy.
     returns (arr, img_copy))))))))"

subsection \<open>Strings\<close>

text \<open>
  \<^verbatim>\<open>str.split('.')\<close> cuts at every dot and never returns an empty list;
  \<^verbatim>\<open>str.lower()\<close> on a byte string maps \<^verbatim>\<open>A\<close>..\<^verbatim>\<open>Z\<close> to \<^verbatim>\<open>a\<close>..\<^verbatim>\<open>z\<close>;
  \<^verbatim>\<open>xs[-2:]\<close> is the last two elements, or all of a shorter list.
\<close>

fun split_dot :: "string \<Rightarrow> string list" where
  "split_dot [] = [[]]"
| "split_dot (c # cs) =
     (if c = CHR ''.'' then [] # split_dot cs
      else (c # hd (split_dot cs)) # tl (split_dot cs))"

fun join_dot :: "string list \<Rightarrow> string" where
  "join_dot [] = []"
| "join_dot [x] = x"
| "join_dot (x # y # ys) = x @ CHR ''.'' # join_dot (y # ys)"

definition lower_chr :: "char \<Rightarrow> char" where
  "lower_chr c =
     (let n = (of_char c :: nat) in if 65 \<le> n \<and> n \<le> 90 then char_of (n + 32) else c)"

definition lower :: "string \<Rightarrow> string" where
  "lower s = map lower_chr s"

definition last_two :: "'x list \<Rightarrow> 'x list" where
  "last_two xs = drop (length xs - 2) xs"

text \<open>
  \<^verbatim>\<open>repr\<close> of a string without quotes, backslashes or unprintable characters (all the
  strings it is applied to here are such), and \<^verbatim>\<open>str\<close> of a list of strings.
\<close>

definition repr_str :: "string \<Rightarrow> string" where
  "repr_str s = CHR 0x27 # s @ [CHR 0x27]"

fun join_comma :: "string list \<Rightarrow> string" where
  "join_comma [] = []"
| "join_comma [x] = x"
| "join_comma (x # y # ys) = x @ '', '' @ join_comma (y # ys)"

definition str_list :: "string list \<Rightarrow> string" where
  "str_list xs = ''['' @ join_comma (map repr_str xs) @ '']''"

subsection \<open>The responsibility dictionaries\<close>

definition suffix_to_type :: "(string \<times> string) list" where
  "suffix_to_type =
     [(''nii'', ''nifti''),
      (''nii.gz'', ''nifti''),
      (''hdr'', ''analyze''),
      (''img'', ''analyze''),
      (''img.gz'', ''analyze''),
      (''dcm'', ''dicom''),
      (''dicom'', ''dicom''),
      (''mhd'', ''meta''),
      (''mha'', ''meta''),
      (''nrrd'', ''nrrd''),
      (''nhdr'', ''nrrd''),
      (''png'', ''png''),
      (''bmp'', ''bmp''),
      (''tif'', ''tif''),
      (''tiff'', ''tif''),
      (''jpg'', ''jpg''),
      (''jpeg'', ''jpg'')]"

definition type_to_string :: "(string \<times> string) list" where
  "type_to_string =
     [(''nifti'', ''NifTi - Neuroimaging Informatics Technology Initiative (.nii, nii.gz)''),
      (''analyze'', ''Analyze (plain, SPM99, SPM2) (.hdr/.img, .img.gz)''),
      (''dicom'', ''Dicom - Digital Imaging and Communications in Medicine (.dcm, .dicom)''),
      (''meta'', ''Itk/Vtk MetaImage (.mhd, .mha/.raw)''),
      (''nrrd'', ''Nrrd - Nearly Raw Raster Data (.nhdr, .nrrd)''),
      (''png'', ''Portable Network Graphics (.png)''),
      (''bmp'', ''Bitmap Image File (.bmp)''),
      (''tif'', ''Tagged Image File Format (.tif,.tiff)''),
      (''jpg'', ''Joint Photographic Experts Group (.jpg, .jpeg)'')]"

definition type_to_function :: "(string \<times> backend) list" where
  "type_to_function =
     [(''nifti'', Nibabel),
      (''analyze'', Nibabel),
      (''dicom'', Pydicom),
      (''meta'', Itk),
      (''nrrd'', Itk),
      (''png'', Itk),
      (''bmp'', Itk),
      (''tif'', Itk),
      (''jpg'', Itk)]"

definition load_fallback_order :: "backend list" where
  "load_fallback_order = [Nibabel, Pydicom, Itk]"

text \<open>\<^verbatim>\<open>d[k]\<close>: the value, or \<^verbatim>\<open>KeyError\<close>.\<close>

definition lookup :: "(string \<times> 'v) list \<Rightarrow> string \<Rightarrow> py_exc + 'v" where
  "lookup d k =
     (case map_of d k of None \<Rightarrow> Inl (Exc KeyError (repr_str k)) | Some v \<Rightarrow> Inr v)"

subsection \<open>The dispatcher\<close>

text \<open>Lines 145 to 149: the suffix, single or compound, or \<^verbatim>\<open>KeyError\<close>.\<close>

definition determine_suffix :: "string \<Rightarrow> py_exc + string" where
  "determine_suffix path =
     (let sfx = lower (last (split_dot path)) in
      if map_of suffix_to_type sfx \<noteq> None then Inr sfx
      else
        (let sfx2 = join_dot (map lower (last_two (split_dot path))) in
         if map_of suffix_to_type sfx2 \<noteq> None then Inr sfx2
         else Inl (Exc KeyError [])))"

text \<open>Lines 145 to 153: the image type and the loader responsible for it.\<close>

definition classify :: "string \<Rightarrow> py_exc + string \<times> backend" where
  "classify path =
     (case determine_suffix path of
        Inl e \<Rightarrow> Inl e
      | Inr sfx \<Rightarrow>
     (case lookup suffix_to_type sfx of
        Inl e \<Rightarrow> Inl e
      | Inr image_type \<Rightarrow>
     (case lookup type_to_function image_type of
        Inl e \<Rightarrow> Inl e
      | Inr loader \<Rightarrow> Inr (image_type, loader))))"

fun loader_of :: "backend \<Rightarrow> ('w, 'h, 'a) libs \<Rightarrow> string \<Rightarrow> ('w, 'a ndarray \<times> 'h) prog" where
  "loader_of Nibabel = load_nibabel"
| "loader_of Pydicom = load_pydicom"
| "loader_of Itk = load_itk"

text \<open>\<^verbatim>\<open>loader(image)\<close> inside \<^verbatim>\<open>load\<close>: the invocation is recorded, then the loader runs.\<close>

definition invoke ::
  "('w, 'h, 'a) libs \<Rightarrow> backend \<Rightarrow> string \<Rightarrow> ('w, 'a ndarray \<times> 'h) prog" where
  "invoke env b path s = loader_of b env path (record_event (Invoke b path) s)"

text \<open>
  The errors \<^verbatim>\<open>load\<close> constructs, with their messages. \<^verbatim>\<open>image.split('.')[-1]\<close> is
  \<open>last (split_dot path)\<close>: the list is never empty, so the index never fails. The
  descriptions \<^verbatim>\<open>type_to_string.values()\<close> are listed in the order of the dictionary
  literal; a dictionary may iterate in another order, which changes the order of the
  list in the message and nothing else.
\<close>

definition dependency_error :: "string \<Rightarrow> py_exc \<Rightarrow> py_exc" where
  "dependency_error description e =
     Exc DependencyError
       (''Loading images of type '' @ description @
        '' requires a third-party module that could not be encountered. Reason: '' @
        str_of e @ ''.'')"

definition image_loading_error :: "string \<Rightarrow> string \<Rightarrow> py_exc \<Rightarrow> py_exc" where
  "image_loading_error path description e =
     Exc ImageLoadingError
       (''Failes to load image '' @ path @ '' as '' @ description @
        ''. Reason signaled by third-party module: '' @ str_of e)"

definition image_type_error :: "string \<Rightarrow> py_exc" where
  "image_type_error path =
     Exc ImageTypeError
       (''The ending '' @ last (split_dot path) @ '' of '' @ path @
        '' could not be associated with any known image type. Supported types are: '' @
        str_list (map snd type_to_string))"

definition does_not_exist_error :: "string \<Rightarrow> py_exc" where
  "does_not_exist_error path =
     Exc ImageLoadingError (''The supplied image '' @ path @ '' does not exist.'')"

text \<open>
  Lines 143 to 162, the \<^verbatim>\<open>try\<close> block of normal loading. It either returns the
  loader's result (\<open>Inr\<close>) or leaves the pending error \<^verbatim>\<open>err\<close> (\<open>Inl\<close>); nothing is
  raised here. The only exceptions lines 145 to 153 raise are \<^verbatim>\<open>KeyError\<close>s, which the
  outer handler turns into the \<^verbatim>\<open>ImageTypeError\<close>; so does a \<^verbatim>\<open>KeyError\<close> of
  \<^verbatim>\<open>type_to_string[image_type]\<close> inside the inner handlers.
\<close>

definition normal_loading ::
  "('w, 'h, 'a) libs \<Rightarrow> string \<Rightarrow> ('w, 'a ndarray \<times> 'h) prog" where
  "normal_loading env path s =
     (case classify path of
        Inl k \<Rightarrow> (Inl (image_type_error path), s)
      | Inr (image_type, loader) \<Rightarrow>
          (case invoke env loader path s of
             (Inr res, s') \<Rightarrow> (Inr res, s')
           | (Inl e, s') \<Rightarrow>
               (case lookup type_to_string image_type of
                  Inl k \<Rightarrow> (Inl (image_type_error path), s')
                | Inr description \<Rightarrow>
                    if cls e = ImportError
                    then (Inl (dependency_error description e), s')
                    else (Inl (image_loading_error path description e), s'))))"

text \<open>Lines 167 to 173: the brute-force loop, then \<^verbatim>\<open>raise err\<close>.\<close>

fun brute_force ::
  "('w, 'h, 'a) libs \<Rightarrow> backend list \<Rightarrow> string \<Rightarrow> py_exc \<Rightarrow> ('w, 'a ndarray \<times> 'h) prog" where
  "brute_force env [] path err s = (Inl err, s)"
| "brute_force env (loader # rest) path err s =
     (case invoke env loader path s of
        (Inr res, s') \<Rightarrow> (Inr res, s')
      | (Inl e, s') \<Rightarrow> brute_force env rest path err s')"

definition load :: "('w, 'h, 'a) libs \<Rightarrow> string \<Rightarrow> ('w, 'a ndarray \<times> 'h) prog" where
  "load env path s =
     (let s1 = record_event (PathExists path) s in
      if \<not> os_path_exists env path (world s) then (Inl (does_not_exist_error path), s1)
      else
        (case normal_loading env path s1 of
           (Inr res, s2) \<Rightarrow> (Inr res, s2)
         | (Inl err, s2) \<Rightarrow> brute_force env load_fallback_order path err s2))"

subsection \<open>Reading the trace\<close>

text \<open>The loader invocations and the existence checks a trace holds, in order.\<close>

fun invoked :: "event list \<Rightarrow> (backend \<times> string) list" where
  "invoked [] = []"
| "invoked (Invoke b p # evs) = (b, p) # invoked evs"
| "invoked (ev # evs) = invoked evs"

fun checked :: "event list \<Rightarrow> string list" where
  "checked [] = []"
| "checked (PathExists p # evs) = p # checked evs"
| "checked (ev # evs) = checked evs"

fun reads :: "event list \<Rightarrow> (string \<times> bool) list" where
  "reads [] = []"
| "reads (DicomReadFile p force # evs) = (p, force) # reads evs"
| "reads (ev # evs) = reads evs"

text \<open>A program is quiet when it neither invokes a loader nor checks a path.\<close>

definition quiet :: "('w, 'r) prog \<Rightarrow> bool" where
  "quiet m =
     (\<forall>s r s'. m s = (r, s') \<longrightarrow>
        (\<exists>evs. trace s' = trace s @ evs \<and> invoked evs = [] \<and> checked evs = []))"

subsection \<open>The specification's wording of suffix extraction\<close>

text \<open>
  The substring after the last dot (the whole path when it has no dot), and the compound
  of the last two dot-separated segments (the whole path when it has fewer than two
  dots), both read off the path from its end.
\<close>

definition after_last_dot :: "string \<Rightarrow> string" where
  "after_last_dot p = rev (takeWhile (\<lambda>c. c \<noteq> CHR ''.'') (rev p))"

definition last_two_segments :: "string \<Rightarrow> string" where
  "last_two_segments p =
     (case dropWhile (\<lambda>c. c \<noteq> CHR ''.'') (rev p) of
        [] \<Rightarrow> p
      | dot # front \<Rightarrow>
          rev (takeWhile (\<lambda>c. c \<noteq> CHR ''.'') front) @ CHR ''.'' # after_last_dot p)"

definition spec_suffix :: "string \<Rightarrow> string option" where
  "spec_suffix p =
     (if lower (after_last_dot p) \<in> set (map fst suffix_to_type)
      then Some (lower (after_last_dot p))
      else if lower (last_two_segments p) \<in> set (map fst suffix_to_type)
      then Some (lower (last_two_segments p))
      else None)"

text \<open>
  A path has the suffix \<open>sfx\<close> when, letter case apart, it is \<open>sfx\<close> itself or ends in a
  dot followed by \<open>sfx\<close>.
\<close>

definition has_suffix :: "string \<Rightarrow> string \<Rightarrow> bool" where
  "has_suffix p sfx = (lower p = sfx \<or> suffix (CHR ''.'' # sfx) (lower p))"

text \<open>The image type \<^verbatim>\<open>load\<close> finds for a path, if any.\<close>

definition image_type_of :: "string \<Rightarrow> string option" where
  "image_type_of p = (case classify p of Inl e \<Rightarrow> None | Inr (image_type, loader) \<Rightarrow> Some image_type)"

subsection \<open>Indices of a squeezed array\<close>

text \<open>
  An index is valid for a shape when it has one coordinate per axis, each below the
  length of its axis. \<open>squeeze_index\<close> drops the coordinates of the axes of length one:
  it is where an element of the array is found after \<^verbatim>\<open>squeeze\<close>.
\<close>

fun squeeze_index :: "nat list \<Rightarrow> nat list \<Rightarrow> nat list" where
  "squeeze_index (d # ds) (i # rest) =
     (if d = 1 then squeeze_index ds rest else i # squeeze_index ds rest)"
| "squeeze_index ds idx = []"

fun valid_index :: "nat list \<Rightarrow> nat list \<Rightarrow> bool" where
  "valid_index [] [] = True"
| "valid_index (d # ds) (i # rest) = (i < d \<and> valid_index ds rest)"
| "valid_index ds idx = False"

subsection \<open>The specification's wording of the nibabel result\<close>

text \<open>
  A shape with its leading and its trailing axes of length one removed, and every
  other axis kept.
\<close>

definition spec_trim_singletons :: "nat list \<Rightarrow> nat list" where
  "spec_trim_singletons sh = rev (dropWhile (\<lambda>d. d = 1) (rev (dropWhile (\<lambda>d. d = 1) sh)))"

subsection \<open>Example worlds\<close>

text \<open>
  The world of the examples is the list of the files on disk; library objects and
  pixels are numbers. In \<open>nothing_installed\<close> every import fails.
\<close>

definition no_module :: "string \<Rightarrow> (string list, unit) ext" where
  "no_module name w = (Inl (Exc ImportError (''No module named '' @ name)), w)"

definition unavailable :: "(string list, 'r) ext" where
  "unavailable w = (Inl (Exc OtherException ''unavailable''), w)"

definition nothing_installed :: "(string list, nat, nat) libs" where
  "nothing_installed =
     \<lparr>os_path_exists = (\<lambda>p w. p \<in> set w),
      import_module = no_module,
      nibabel_load = (\<lambda>p. unavailable),
      get_data = (\<lambda>h. unavailable),
      dicom_read_file = (\<lambda>p force. unavailable),
      pixel_array = (\<lambda>h. unavailable),
      itku_getImageTypeFromFile = (\<lambda>p. unavailable),
      itk_read = (\<lambda>t p. unavailable),
      itku_getArrayFromImage = (\<lambda>h. unavailable),
      itk_copy = (\<lambda>h. unavailable),
      itk_copy_pointer = (\<lambda>h. unavailable)\<rparr>"

definition volume :: "nat ndarray" where
  "volume = \<lparr>shape = [2, 1, 3], item = (\<lambda>idx. case idx of [i, j, k] \<Rightarrow> 3 * i + k | _ \<Rightarrow> 0)\<rparr>"

definition only_module :: "string \<Rightarrow> string \<Rightarrow> (string list, unit) ext" where
  "only_module installed name = (if name = installed then (\<lambda>w. (Inr (), w)) else no_module name)"

text \<open>Only nibabel is installed; it decodes every file to \<open>volume\<close>.\<close>

definition nibabel_installed :: "(string list, nat, nat) libs" where
  "nibabel_installed =
     nothing_installed
       \<lparr>import_module := only_module ''nibabel'',
        nibabel_load := (\<lambda>p w. (Inr 7, w)),
        get_data := (\<lambda>h w. (Inr volume, w))\<rparr>"

text \<open>Only nibabel is installed, and it rejects every file.\<close>

definition nibabel_rejecting :: "(string list, nat, nat) libs" where
  "nibabel_rejecting =
     nothing_installed
       \<lparr>import_module := only_module ''nibabel'',
        nibabel_load := (\<lambda>p w. (Inl (Exc OtherException ''not a nifti file''), w))\<rparr>"

text \<open>
  Only pydicom is installed; it reads a file in forced mode only, signalling
  \<^verbatim>\<open>InvalidDicomError\<close> otherwise.
\<close>

definition dicom_forced_only :: "(string list, nat, nat) libs" where
  "dicom_forced_only =
     nothing_installed
       \<lparr>import_module := only_module ''dicom'',
        dicom_read_file :=
          (\<lambda>p force w. if force then (Inr 5, w)
                        else (Inl (Exc InvalidDicomError ''File is missing DICM marker''), w)),
        pixel_array := (\<lambda>h w. (Inr volume, w))\<rparr>"

definition disk :: "string list \<Rightarrow> string list sys" where
  "disk files = \<lparr>world = files, trace = []\<rparr>"

section \<open>What a run leaves in the trace\<close>

lemma invoked_append: "invoked (xs @ ys) = invoked xs @ invoked ys"
  by (induction xs rule: invoked.induct) simp_all

lemma checked_append: "checked (xs @ ys) = checked xs @ checked ys"
  by (induction xs rule: checked.induct) simp_all

lemma reads_append: "reads (xs @ ys) = reads xs @ reads ys"
  by (induction xs rule: reads.induct) simp_all

lemma quiet_call: "invoked [ev] = [] \<Longrightarrow> checked [ev] = [] \<Longrightarrow> quiet (call ev f)"
  by (auto simp: quiet_def call_def split: prod.splits)

lemma quiet_returns: "quiet (returns r)"
  by (simp add: quiet_def returns_def)

lemma quiet_raises: "quiet (raises e)"
  by (simp add: quiet_def raises_def)

lemma quiet_and_then:
  assumes "quiet m" and "\<And>r. quiet (f r)"
  shows "quiet (and_then m f)"
  unfolding quiet_def
proof (intro allI impI)
  fix s r s'
  assume run: "and_then m f s = (r, s')"
  obtain r1 s1 where m: "m s = (r1, s1)" by (cases "m s")
  from assms(1) m obtain evs1 where
    e1: "trace s1 = trace s @ evs1" "invoked evs1 = []" "checked evs1 = []"
    unfolding quiet_def by blast
  show "\<exists>evs. trace s' = trace s @ evs \<and> invoked evs = [] \<and> checked evs = []"
  proof (cases r1)
    case (Inl e)
    with run m have "s' = s1" by (simp add: and_then_def)
    with e1 show ?thesis by blast
  next
    case (Inr v)
    with run m have "f v s1 = (r, s')" by (simp add: and_then_def)
    with assms(2) obtain evs2 where
      e2: "trace s' = trace s1 @ evs2" "invoked evs2 = []" "checked evs2 = []"
      unfolding quiet_def by blast
    from e1 e2 have "trace s' = trace s @ (evs1 @ evs2)" 
      "invoked (evs1 @ evs2) = []" "checked (evs1 @ evs2) = []"
      by (simp_all add: invoked_append checked_append)
    then show ?thesis by blast
  qed
qed

lemma quiet_try_except:
  assumes "quiet m" and "\<And>e. quiet (h e)"
  shows "quiet (try_except m h)"
  unfolding quiet_def
proof (intro allI impI)
  fix s r s'
  assume run: "try_except m h s = (r, s')"
  obtain r1 s1 where m: "m s = (r1, s1)" by (cases "m s")
  from assms(1) m obtain evs1 where
    e1: "trace s1 = trace s @ evs1" "invoked evs1 = []" "checked evs1 = []"
    unfolding quiet_def by blast
  show "\<exists>evs. trace s' = trace s @ evs \<and> invoked evs = [] \<and> checked evs = []"
  proof (cases r1)
    case (Inr v)
    with run m have "s' = s1" by (simp add: try_except_def)
    with e1 show ?thesis by blast
  next
    case (Inl e)
    with run m have "h e s1 = (r, s')" by (simp add: try_except_def)
    with assms(2) obtain evs2 where
      e2: "trace s' = trace s1 @ evs2" "invoked evs2 = []" "checked evs2 = []"
      unfolding quiet_def by blast
    from e1 e2 have "trace s' = trace s @ (evs1 @ evs2)" 
      "invoked (evs1 @ evs2) = []" "checked (evs1 @ evs2) = []"
      by (simp_all add: invoked_append checked_append)
    then show ?thesis by blast
  qed
qed

lemmas quiet_intros = quiet_call quiet_returns quiet_raises quiet_and_then quiet_try_except

lemma quiet_load_nibabel: "quiet (load_nibabel env path)"
  unfolding load_nibabel_def by (intro quiet_intros) simp_all

lemma quiet_load_pydicom: "quiet (load_pydicom env path)"
  unfolding load_pydicom_def by (intro quiet_intros) (simp_all add: quiet_intros)

lemma quiet_load_itk: "quiet (load_itk env path)"
  unfolding load_itk_def
  by (intro quiet_intros) (simp_all add: quiet_intros split: option.split)

lemma quiet_loader_of: "quiet (loader_of b env path)"
  by (cases b) (simp_all add: quiet_load_nibabel quiet_load_pydicom quiet_load_itk)

lemma invoke_trace:
  assumes "invoke env b path s = (r, s')"
  shows "invoked (trace s') = invoked (trace s) @ [(b, path)]"
    and "checked (trace s') = checked (trace s)"
proof -
  from assms quiet_loader_of [of b env path] obtain evs where
    "trace s' = trace (record_event (Invoke b path) s) @ evs" "invoked evs = []" "checked evs = []"
    unfolding quiet_def invoke_def by blast
  then show "invoked (trace s') = invoked (trace s) @ [(b, path)]"
    and "checked (trace s') = checked (trace s)"
    by (simp_all add: record_event_def invoked_append checked_append)
qed

lemma brute_force_checked:
  "brute_force env bs path err s = (r, s') \<Longrightarrow> checked (trace s') = checked (trace s)"
proof (induction bs arbitrary: s)
  case Nil
  then show ?case by simp
next
  case (Cons b bs)
  obtain r1 s1 where inv: "invoke env b path s = (r1, s1)" by (cases "invoke env b path s")
  have c1: "checked (trace s1) = checked (trace s)" by (rule invoke_trace(2) [OF inv])
  show ?case
  proof (cases r1)
    case (Inr res)
    with Cons.prems inv have "s' = s1" by simp
    with c1 show ?thesis by simp
  next
    case (Inl e)
    with Cons.prems inv have "brute_force env bs path err s1 = (r, s')" by simp
    from Cons.IH [OF this] c1 show ?thesis by simp
  qed
qed

lemma normal_loading_checked:
  assumes "normal_loading env path s = (r, s')"
  shows "checked (trace s') = checked (trace s)"
proof (cases "classify path")
  case (Inl k)
  with assms show ?thesis by (simp add: normal_loading_def)
next
  case (Inr tl)
  obtain ty b where tl: "tl = (ty, b)" by (cases tl)
  obtain r1 s1 where inv: "invoke env b path s = (r1, s1)" by (cases "invoke env b path s")
  have c1: "checked (trace s1) = checked (trace s)" by (rule invoke_trace(2) [OF inv])
  from assms Inr tl inv have "s' = s1"
    by (auto simp: normal_loading_def split: sum.splits if_splits)
  with c1 show ?thesis by simp
qed

lemma load_checked: "checked (trace (snd (load env path s))) = checked (trace s) @ [path]"
proof (cases "os_path_exists env path (world s)")
  case False
  then show ?thesis by (simp add: load_def record_event_def checked_append)
next
  case True
  let ?s1 = "record_event (PathExists path) s"
  have c0: "checked (trace ?s1) = checked (trace s) @ [path]"
    by (simp add: record_event_def checked_append)
  obtain r1 s1 where nl: "normal_loading env path ?s1 = (r1, s1)"
    by (cases "normal_loading env path ?s1")
  have c1: "checked (trace s1) = checked (trace ?s1)" by (rule normal_loading_checked [OF nl])
  show ?thesis
  proof (cases r1)
    case (Inr res)
    with True nl have "load env path s = (Inr res, s1)" by (simp add: load_def)
    with c0 c1 show ?thesis by simp
  next
    case (Inl err)
    obtain r2 s2 where bf: "brute_force env load_fallback_order path err s1 = (r2, s2)"
      by (cases "brute_force env load_fallback_order path err s1")
    with True nl Inl have "load env path s = (r2, s2)" by (simp add: load_def)
    with brute_force_checked [OF bf] c0 c1 show ?thesis by simp
  qed
qed

lemma classify_nii: "classify ''s.nii'' = Inr (''nifti'', Nibabel)"
  by code_simp

section \<open>Splitting a path at its dots\<close>

lemma split_dot_nonempty: "split_dot p \<noteq> []"
  by (cases p) simp_all

lemma split_dot_no_dot: "CHR ''.'' \<notin> set p \<Longrightarrow> split_dot p = [p]"
  by (induction p) auto

lemma split_dot_append: "split_dot (xs @ CHR ''.'' # ys) = split_dot xs @ split_dot ys"
  by (induction xs) (simp_all add: split_dot_nonempty)

lemma after_last_dot_no_dot: "CHR ''.'' \<notin> set p \<Longrightarrow> after_last_dot p = p"
proof -
  assume "CHR ''.'' \<notin> set p"
  then have "takeWhile (\<lambda>c. c \<noteq> CHR ''.'') (rev p) = rev p"
    by (intro takeWhile_eq_all_conv [THEN iffD2]) auto
  then show ?thesis by (simp only: after_last_dot_def rev_rev_ident)
qed

lemma after_last_dot_append:
  "CHR ''.'' \<notin> set ys \<Longrightarrow> after_last_dot (xs @ CHR ''.'' # ys) = ys"
proof -
  assume "CHR ''.'' \<notin> set ys"
  then have "takeWhile (\<lambda>c. c \<noteq> CHR ''.'') (rev ys @ CHR ''.'' # rev xs) = rev ys"
    by (subst takeWhile_append2) auto
  then show ?thesis by (simp add: after_last_dot_def)
qed

lemma last_two_segments_no_dot: "CHR ''.'' \<notin> set p \<Longrightarrow> last_two_segments p = p"
proof -
  assume "CHR ''.'' \<notin> set p"
  then have "dropWhile (\<lambda>c. c \<noteq> CHR ''.'') (rev p) = []"
    by (intro dropWhile_eq_Nil_conv [THEN iffD2]) auto
  then show ?thesis by (simp only: last_two_segments_def list.case)
qed

lemma last_two_segments_append:
  assumes "CHR ''.'' \<notin> set ys"
  shows "last_two_segments (xs @ CHR ''.'' # ys) = after_last_dot xs @ CHR ''.'' # ys"
proof -
  from assms have "dropWhile (\<lambda>c. c \<noteq> CHR ''.'') (rev ys @ CHR ''.'' # rev xs) = CHR ''.'' # rev xs"
    by (subst dropWhile_append2) auto
  then show ?thesis
    by (simp add: last_two_segments_def after_last_dot_append [OF assms]) (simp add: after_last_dot_def)
qed

lemma cut_at_last_dot:
  obtains (no_dot) "CHR ''.'' \<notin> set p"
  | (dot) xs ys where "p = xs @ CHR ''.'' # ys" and "CHR ''.'' \<notin> set ys"
  using split_list_last [of "CHR ''.''" p] by blast

lemma last_split_dot: "last (split_dot p) = after_last_dot p"
proof (cases p rule: cut_at_last_dot)
  case no_dot
  then show ?thesis by (simp add: split_dot_no_dot after_last_dot_no_dot)
next
  case (dot xs ys)
  then show ?thesis
    by (simp add: split_dot_append split_dot_no_dot after_last_dot_append)
qed

lemma last_two_snoc: "xs \<noteq> [] \<Longrightarrow> last_two (xs @ [y]) = [last xs, y]"
proof -
  assume ne: "xs \<noteq> []"
  then have "xs = butlast xs @ [last xs]" by simp
  then obtain zs where xs: "xs = zs @ [last xs]" ..
  have "last_two ((zs @ [last xs]) @ [y]) = [last xs, y]" by (simp add: last_two_def)
  with xs show ?thesis by simp
qed

lemma lower_append: "lower (xs @ ys) = lower xs @ lower ys"
  by (simp add: lower_def)

lemma lower_dot: "lower (CHR ''.'' # ys) = CHR ''.'' # lower ys"
  by (simp add: lower_def lower_chr_def)

lemma compound_split_dot:
  "join_dot (map lower (last_two (split_dot p))) = lower (last_two_segments p)"
proof (cases p rule: cut_at_last_dot)
  case no_dot
  then show ?thesis by (simp add: split_dot_no_dot last_two_segments_no_dot last_two_def)
next
  case (dot xs ys)
  have "last_two (split_dot p) = [after_last_dot xs, ys]"
    using dot by (simp add: split_dot_append split_dot_no_dot last_two_snoc split_dot_nonempty last_split_dot)
  then show ?thesis using dot
    by (simp add: last_two_segments_append lower_append lower_dot)
qed

lemma is_key: "(map_of suffix_to_type k \<noteq> None) = (k \<in> set (map fst suffix_to_type))"
  by (simp add: map_of_eq_None_iff)

lemma determine_suffix_spec:
  "determine_suffix p = (case spec_suffix p of Some sfx \<Rightarrow> Inr sfx | None \<Rightarrow> Inl (Exc KeyError []))"
  unfolding determine_suffix_def spec_suffix_def Let_def is_key last_split_dot compound_split_dot
  by simp

lemma type_is_registered:
  "map_of suffix_to_type sfx = Some ty \<Longrightarrow>
     \<exists>b d. map_of type_to_function ty = Some b \<and> map_of type_to_string ty = Some d"
  by (auto simp: suffix_to_type_def type_to_function_def type_to_string_def split: if_splits)

lemma classify_of_suffix:
  assumes "determine_suffix p = Inr sfx"
  shows "\<exists>ty b. map_of suffix_to_type sfx = Some ty \<and> map_of type_to_function ty = Some b
           \<and> classify p = Inr (ty, b)"
proof -
  from assms have "map_of suffix_to_type sfx \<noteq> None"
    by (auto simp: determine_suffix_def Let_def split: if_splits)
  then obtain ty where ty: "map_of suffix_to_type sfx = Some ty" by blast
  from type_is_registered [OF ty] obtain b where b: "map_of type_to_function ty = Some b" by blast
  from assms ty b have "classify p = Inr (ty, b)" by (simp add: classify_def lookup_def)
  with ty b show ?thesis by blast
qed

lemma classify_fails: "determine_suffix p = Inl e \<Longrightarrow> classify p = Inl (Exc KeyError [])"
  by (auto simp: classify_def determine_suffix_def Let_def split: if_splits)

section \<open>Classification\<close>

text \<open>
  Claim C3. For every path, the suffix \<open>load\<close> classifies by is the substring after the
  last dot, lowercased; when that is not a key of the suffix table it is the compound of
  the last two dot-separated segments, lowercased; and when that is no key either,
  classification fails with the \<^verbatim>\<open>KeyError\<close> that stands for "no image type found".
  The image type is the table's entry for the suffix so chosen. (For a path without a
  dot the segment is the whole path, as \<^verbatim>\<open>split\<close> returns it.)
\<close>

theorem suffix_extraction:
  "determine_suffix path =
     (case spec_suffix path of Some sfx \<Rightarrow> Inr sfx | None \<Rightarrow> Inl (Exc KeyError []))
   \<and> image_type_of path =
     (case spec_suffix path of Some sfx \<Rightarrow> map_of suffix_to_type sfx | None \<Rightarrow> None)
   \<and> (spec_suffix path = None) = (classify path = Inl (Exc KeyError []))"
proof (cases "spec_suffix path")
  case None
  then have "determine_suffix path = Inl (Exc KeyError [])" by (simp add: determine_suffix_spec)
  from this classify_fails [OF this] None show ?thesis by (simp add: image_type_of_def)
next
  case (Some sfx)
  then have d: "determine_suffix path = Inr sfx" by (simp add: determine_suffix_spec)
  from classify_of_suffix [OF d] obtain ty b where
    "map_of suffix_to_type sfx = Some ty" "classify path = Inr (ty, b)" by blast
  with d Some show ?thesis by (simp add: image_type_of_def)
qed

theorem suffix_extraction_examples:
  "determine_suffix ''/data/Scan.NII'' = Inr ''nii''
   \<and> image_type_of ''/data/Scan.NII'' = Some ''nifti''
   \<and> determine_suffix ''brain.Img.GZ'' = Inr ''img.gz''
   \<and> image_type_of ''brain.Img.GZ'' = Some ''analyze''
   \<and> classify ''scan.xyz.gz'' = Inl (Exc KeyError [])"
proof -
  have a: "spec_suffix ''/data/Scan.NII'' = Some ''nii''" by code_simp
  have b: "spec_suffix ''brain.Img.GZ'' = Some ''img.gz''" by code_simp
  have c: "spec_suffix ''scan.xyz.gz'' = None" by code_simp
  have n: "map_of suffix_to_type ''nii'' = Some ''nifti''" by code_simp
  have i: "map_of suffix_to_type ''img.gz'' = Some ''analyze''" by code_simp
  from suffix_extraction [of "''/data/Scan.NII''"] suffix_extraction [of "''brain.Img.GZ''"]
    suffix_extraction [of "''scan.xyz.gz''"] a b c n i
  show ?thesis by simp
qed

lemma lower_chr_dot: "(lower_chr c = CHR ''.'') = (c = CHR ''.'')"
proof
  assume "c = CHR ''.''"
  then show "lower_chr c = CHR ''.''" by (simp add: lower_chr_def)
next
  assume a: "lower_chr c = CHR ''.''"
  show "c = CHR ''.''"
  proof (cases "65 \<le> (of_char c :: nat) \<and> (of_char c :: nat) \<le> 90")
    case False
    with a show ?thesis by (simp add: lower_chr_def Let_def)
  next
    case True
    with a have "char_of (of_char c + 32 :: nat) = CHR ''.''" by (simp add: lower_chr_def Let_def)
    then have "of_char (char_of (of_char c + 32 :: nat) :: char) = (of_char (CHR ''.'') :: nat)"
      by simp
    with True have False by (simp add: of_char_of)
    then show ?thesis ..
  qed
qed

lemma dot_in_lower: "(CHR ''.'' \<in> set (lower p)) = (CHR ''.'' \<in> set p)"
proof -
  have "(CHR ''.'' = lower_chr c) = (c = CHR ''.'')" for c
    using lower_chr_dot [of c] by auto
  then show ?thesis by (auto simp: lower_def image_iff)
qed

lemma not_dot_lower: "(\<lambda>c. c \<noteq> CHR ''.'') \<circ> lower_chr = (\<lambda>c. c \<noteq> CHR ''.'')"
  by (auto simp: fun_eq_iff lower_chr_dot)

lemma after_last_dot_lower: "lower (after_last_dot p) = after_last_dot (lower p)"
  by (simp add: after_last_dot_def lower_def rev_map takeWhile_map not_dot_lower)

lemma last_two_segments_lower: "lower (last_two_segments p) = last_two_segments (lower p)"
proof (cases p rule: cut_at_last_dot)
  case no_dot
  then have "CHR ''.'' \<notin> set (lower p)" by (simp add: dot_in_lower)
  with no_dot show ?thesis by (simp add: last_two_segments_no_dot)
next
  case (dot xs ys)
  then have "CHR ''.'' \<notin> set (lower ys)" by (simp add: dot_in_lower)
  then have "last_two_segments (lower xs @ CHR ''.'' # lower ys) =
               after_last_dot (lower xs) @ CHR ''.'' # lower ys"
    by (rule last_two_segments_append)
  with dot show ?thesis
    by (simp add: last_two_segments_append lower_append lower_dot after_last_dot_lower)
qed

lemma ending_single:
  assumes "CHR ''.'' \<notin> set sfx" and "q = sfx \<or> suffix (CHR ''.'' # sfx) q"
  shows "after_last_dot q = sfx"
  using assms by (auto simp: suffix_def after_last_dot_no_dot after_last_dot_append)

lemma ending_compound:
  assumes "CHR ''.'' \<notin> set a" and "CHR ''.'' \<notin> set b"
    and "q = a @ CHR ''.'' # b \<or> suffix (CHR ''.'' # a @ CHR ''.'' # b) q"
  shows "after_last_dot q = b \<and> last_two_segments q = a @ CHR ''.'' # b"
proof -
  from assms(3) consider "q = a @ CHR ''.'' # b"
    | zs where "q = (zs @ CHR ''.'' # a) @ CHR ''.'' # b"
    by (auto simp: suffix_def)
  then show ?thesis
  proof cases
    case 1
    with assms show ?thesis
      by (simp add: after_last_dot_append last_two_segments_append after_last_dot_no_dot)
  next
    case 2
    have "last_two_segments ((zs @ CHR ''.'' # a) @ CHR ''.'' # b) =
            after_last_dot (zs @ CHR ''.'' # a) @ CHR ''.'' # b"
      using assms(2) by (rule last_two_segments_append)
    moreover have "after_last_dot ((zs @ CHR ''.'' # a) @ CHR ''.'' # b) = b"
      using assms(2) by (rule after_last_dot_append)
    ultimately show ?thesis using 2 assms(1) by (simp add: after_last_dot_append)
  qed
qed

lemma spec_suffix_single:
  assumes "has_suffix p sfx" and "CHR ''.'' \<notin> set sfx" and "sfx \<in> set (map fst suffix_to_type)"
  shows "spec_suffix p = Some sfx"
proof -
  from assms(1,2) have "after_last_dot (lower p) = sfx"
    unfolding has_suffix_def by (intro ending_single)
  with assms(3) show ?thesis by (simp add: spec_suffix_def after_last_dot_lower)
qed

lemma spec_suffix_compound:
  assumes "has_suffix p (a @ CHR ''.'' # b)" and "CHR ''.'' \<notin> set a" and "CHR ''.'' \<notin> set b"
    and "b \<notin> set (map fst suffix_to_type)"
    and "a @ CHR ''.'' # b \<in> set (map fst suffix_to_type)"
  shows "spec_suffix p = Some (a @ CHR ''.'' # b)"
proof -
  from assms(1) have "lower p = a @ CHR ''.'' # b \<or> suffix (CHR ''.'' # a @ CHR ''.'' # b) (lower p)"
    by (simp add: has_suffix_def)
  from ending_compound [OF assms(2,3) this] assms(4,5) show ?thesis
    by (simp add: spec_suffix_def after_last_dot_lower last_two_segments_lower)
qed

lemma determine_suffix_of_ending:
  assumes "has_suffix p sfx"
    and "(CHR ''.'' \<notin> set sfx \<and> sfx \<in> set (map fst suffix_to_type))
         \<or> sfx = ''nii.gz'' \<or> sfx = ''img.gz''"
  shows "determine_suffix p = Inr sfx"
proof -
  have gz: "''gz'' \<notin> set (map fst suffix_to_type)" by code_simp
  have n: "''nii'' @ CHR ''.'' # ''gz'' \<in> set (map fst suffix_to_type)" by code_simp
  have i: "''img'' @ CHR ''.'' # ''gz'' \<in> set (map fst suffix_to_type)" by code_simp
  from assms(2) consider
      (single) "CHR ''.'' \<notin> set sfx" "sfx \<in> set (map fst suffix_to_type)"
    | (nii_gz) "sfx = ''nii'' @ CHR ''.'' # ''gz''"
    | (img_gz) "sfx = ''img'' @ CHR ''.'' # ''gz''"
    by auto
  then have "spec_suffix p = Some sfx"
  proof cases
    case single
    with assms(1) show ?thesis by (rule spec_suffix_single)
  next
    case nii_gz
    have "spec_suffix p = Some (''nii'' @ CHR ''.'' # ''gz'')"
      using assms(1) [unfolded nii_gz] _ _ gz n by (rule spec_suffix_compound) simp_all
    with nii_gz show ?thesis by (simp only:)
  next
    case img_gz
    have "spec_suffix p = Some (''img'' @ CHR ''.'' # ''gz'')"
      using assms(1) [unfolded img_gz] _ _ gz i by (rule spec_suffix_compound) simp_all
    with img_gz show ?thesis by (simp only:)
  qed
  then show ?thesis by (simp add: determine_suffix_spec)
qed

lemma routed_of_ending:
  assumes "has_suffix p sfx"
    and "((CHR ''.'' \<notin> set sfx \<and> sfx \<in> set (map fst suffix_to_type))
          \<or> sfx = ''nii.gz'' \<or> sfx = ''img.gz'')
         \<and> (case map_of suffix_to_type sfx of
               None \<Rightarrow> False
             | Some ty \<Rightarrow> map_of type_to_function ty = Some b)"
  shows "determine_suffix p = Inr sfx \<and> (\<exists>image_type. classify p = Inr (image_type, b))"
proof -
  from assms(2) have d: "determine_suffix p = Inr sfx"
    by (intro determine_suffix_of_ending [OF assms(1)]) blast
  from assms(2) obtain ty where "map_of suffix_to_type sfx = Some ty"
    "map_of type_to_function ty = Some b"
    by (auto split: option.splits)
  with d have "classify p = Inr (ty, b)" by (simp add: classify_def lookup_def)
  with d show ?thesis by blast
qed

lemma nibabel_suffixes:
  "list_all (\<lambda>sfx.
      ((CHR ''.'' \<notin> set sfx \<and> sfx \<in> set (map fst suffix_to_type))
          \<or> sfx = ''nii.gz'' \<or> sfx = ''img.gz'')
      \<and> (case map_of suffix_to_type sfx of
               None \<Rightarrow> False
             | Some ty \<Rightarrow> map_of type_to_function ty = Some Nibabel))
     [''nii'', ''nii.gz'', ''hdr'', ''img'', ''img.gz'']"
  by code_simp

lemma pydicom_suffixes:
  "list_all (\<lambda>sfx.
      ((CHR ''.'' \<notin> set sfx \<and> sfx \<in> set (map fst suffix_to_type))
          \<or> sfx = ''nii.gz'' \<or> sfx = ''img.gz'')
      \<and> (case map_of suffix_to_type sfx of
               None \<Rightarrow> False
             | Some ty \<Rightarrow> map_of type_to_function ty = Some Pydicom))
     [''dcm'', ''dicom'']"
  by code_simp

lemma itk_suffixes:
  "list_all (\<lambda>sfx.
      ((CHR ''.'' \<notin> set sfx \<and> sfx \<in> set (map fst suffix_to_type))
          \<or> sfx = ''nii.gz'' \<or> sfx = ''img.gz'')
      \<and> (case map_of suffix_to_type sfx of
               None \<Rightarrow> False
             | Some ty \<Rightarrow> map_of type_to_function ty = Some Itk))
     [''mhd'', ''mha'', ''nrrd'', ''nhdr'', ''png'', ''bmp'', ''tif'', ''tiff'', ''jpg'', ''jpeg'']"
  by code_simp

lemma has_suffix_of_determined:
  assumes "determine_suffix p = Inr sfx"
  shows "has_suffix p sfx"
proof -
  from assms have s: "sfx = lower (after_last_dot p) \<or> sfx = lower (last_two_segments p)"
    by (auto simp: determine_suffix_spec spec_suffix_def split: if_splits)
  show ?thesis
  proof (cases p rule: cut_at_last_dot)
    case no_dot
    with s show ?thesis
      by (auto simp: has_suffix_def after_last_dot_no_dot last_two_segments_no_dot)
  next
    case (dot xs ys)
    from s show ?thesis
    proof
      assume "sfx = lower (after_last_dot p)"
      with dot have "lower p = lower xs @ CHR ''.'' # sfx"
        by (simp add: after_last_dot_append lower_append lower_dot)
      then show ?thesis by (auto simp: has_suffix_def suffix_def)
    next
      assume c: "sfx = lower (last_two_segments p)"
      show ?thesis
      proof (cases xs rule: cut_at_last_dot)
        case no_dot
        with dot c have "sfx = lower p"
          by (simp add: last_two_segments_append after_last_dot_no_dot)
        then show ?thesis by (simp add: has_suffix_def)
      next
        case (dot us vs)
        have "last_two_segments (xs @ CHR ''.'' # ys) = after_last_dot xs @ CHR ''.'' # ys"
          using \<open>CHR ''.'' \<notin> set ys\<close> by (rule last_two_segments_append)
        moreover have "after_last_dot xs = vs"
          using dot by (simp add: after_last_dot_append)
        ultimately have "sfx = lower vs @ CHR ''.'' # lower ys"
          using c \<open>p = xs @ CHR ''.'' # ys\<close> by (simp add: lower_append lower_dot)
        with \<open>p = xs @ CHR ''.'' # ys\<close> dot
        have "lower p = lower us @ CHR ''.'' # sfx"
          by (simp add: lower_append lower_dot)
        then show ?thesis by (auto simp: has_suffix_def suffix_def)
      qed
    qed
  qed
qed


lemma routing_of_determined:
  assumes "determine_suffix path = Inr sfx"
  shows "(\<exists>image_type. classify path =
            Inr (image_type,
                 if sfx \<in> set [''nii'', ''nii.gz'', ''hdr'', ''img'', ''img.gz''] then Nibabel
                 else if sfx \<in> set [''dcm'', ''dicom''] then Pydicom
                 else Itk))
         \<and> sfx \<in> set ([''nii'', ''nii.gz'', ''hdr'', ''img'', ''img.gz''] @ [''dcm'', ''dicom''] @
                        [''mhd'', ''mha'', ''nrrd'', ''nhdr'', ''png'', ''bmp'', ''tif'', ''tiff'',
                         ''jpg'', ''jpeg''])"
proof -
  from classify_of_suffix [OF assms] obtain ty b where
    ty: "map_of suffix_to_type sfx = Some ty" and b: "map_of type_to_function ty = Some b"
    and c: "classify path = Inr (ty, b)" by blast
  from ty have key: "sfx \<in> set (map fst suffix_to_type)"
    using is_key [of sfx] by simp
  from ty b have "b = (if sfx \<in> set [''nii'', ''nii.gz'', ''hdr'', ''img'', ''img.gz''] then Nibabel
                 else if sfx \<in> set [''dcm'', ''dicom''] then Pydicom
                 else Itk)"
    by (auto simp: suffix_to_type_def type_to_function_def split: if_splits)
  with c key show ?thesis by (simp add: suffix_to_type_def)
qed

lemma classify_from:
  "\<exists>image_type. classify p = Inr (image_type, b) \<Longrightarrow> image_type_of p = Some ty \<Longrightarrow>
     classify p = Inr (ty, b)"
  by (auto simp: image_type_of_def)

text \<open>
  Claim C4. A path that has one of the suffixes nii, nii.gz, hdr, img, img.gz is
  classified by that suffix and the loader selected for the primary attempt is nibabel;
  with dcm or dicom it is pydicom; with any other suffix of the table (mhd, mha, nrrd,
  nhdr, png, bmp, tif, tiff, jpg, jpeg) it is itk. Conversely, the suffix a path is
  classified by is a suffix the path has, it is one of these seventeen, and the loader
  is the one of its group.
\<close>

theorem routing_by_suffix:
  "(\<forall>sfx. has_suffix path sfx \<and> sfx \<in> set [''nii'', ''nii.gz'', ''hdr'', ''img'', ''img.gz''] \<longrightarrow>
       determine_suffix path = Inr sfx \<and>
       (\<exists>image_type. classify path = Inr (image_type, Nibabel)))
   \<and> (\<forall>sfx. has_suffix path sfx \<and> sfx \<in> set [''dcm'', ''dicom''] \<longrightarrow>
       determine_suffix path = Inr sfx \<and>
       (\<exists>image_type. classify path = Inr (image_type, Pydicom)))
   \<and> (\<forall>sfx. has_suffix path sfx \<and>
            sfx \<in> set [''mhd'', ''mha'', ''nrrd'', ''nhdr'', ''png'', ''bmp'', ''tif'', ''tiff'',
                        ''jpg'', ''jpeg''] \<longrightarrow>
       determine_suffix path = Inr sfx \<and>
       (\<exists>image_type. classify path = Inr (image_type, Itk)))
   \<and> (\<forall>sfx. determine_suffix path = Inr sfx \<longrightarrow>
       has_suffix path sfx \<and>
       (\<exists>image_type. classify path =
            Inr (image_type,
                 if sfx \<in> set [''nii'', ''nii.gz'', ''hdr'', ''img'', ''img.gz''] then Nibabel
                 else if sfx \<in> set [''dcm'', ''dicom''] then Pydicom
                 else Itk)) \<and>
       sfx \<in> set ([''nii'', ''nii.gz'', ''hdr'', ''img'', ''img.gz''] @ [''dcm'', ''dicom''] @
                   [''mhd'', ''mha'', ''nrrd'', ''nhdr'', ''png'', ''bmp'', ''tif'', ''tiff'',
                    ''jpg'', ''jpeg'']))"
proof (intro conjI allI impI; (elim conjE)?)
  fix sfx
  assume h: "has_suffix path sfx" and m: "sfx \<in> set [''nii'', ''nii.gz'', ''hdr'', ''img'', ''img.gz'']"
  from nibabel_suffixes m have "((CHR ''.'' \<notin> set sfx \<and> sfx \<in> set (map fst suffix_to_type))
          \<or> sfx = ''nii.gz'' \<or> sfx = ''img.gz'')
      \<and> (case map_of suffix_to_type sfx of
               None \<Rightarrow> False
             | Some ty \<Rightarrow> map_of type_to_function ty = Some Nibabel)"
    unfolding list_all_iff by blast
  from routed_of_ending [OF h this]
  show "determine_suffix path = Inr sfx" "\<exists>image_type. classify path = Inr (image_type, Nibabel)"
    by blast+
next
  fix sfx
  assume h: "has_suffix path sfx" and m: "sfx \<in> set [''dcm'', ''dicom'']"
  from pydicom_suffixes m have "((CHR ''.'' \<notin> set sfx \<and> sfx \<in> set (map fst suffix_to_type))
          \<or> sfx = ''nii.gz'' \<or> sfx = ''img.gz'')
      \<and> (case map_of suffix_to_type sfx of
               None \<Rightarrow> False
             | Some ty \<Rightarrow> map_of type_to_function ty = Some Pydicom)"
    unfolding list_all_iff by blast
  from routed_of_ending [OF h this]
  show "determine_suffix path = Inr sfx" "\<exists>image_type. classify path = Inr (image_type, Pydicom)"
    by blast+
next
  fix sfx
  assume h: "has_suffix path sfx"
    and m: "sfx \<in> set [''mhd'', ''mha'', ''nrrd'', ''nhdr'', ''png'', ''bmp'', ''tif'', ''tiff'',
                        ''jpg'', ''jpeg'']"
  from itk_suffixes m have "((CHR ''.'' \<notin> set sfx \<and> sfx \<in> set (map fst suffix_to_type))
          \<or> sfx = ''nii.gz'' \<or> sfx = ''img.gz'')
      \<and> (case map_of suffix_to_type sfx of
               None \<Rightarrow> False
             | Some ty \<Rightarrow> map_of type_to_function ty = Some Itk)"
    unfolding list_all_iff by blast
  from routed_of_ending [OF h this]
  show "determine_suffix path = Inr sfx" "\<exists>image_type. classify path = Inr (image_type, Itk)"
    by blast+
next
  fix sfx
  assume d: "determine_suffix path = Inr sfx"
  show "has_suffix path sfx" by (rule has_suffix_of_determined [OF d])
  from routing_of_determined [OF d]
  show "\<exists>image_type. classify path =
            Inr (image_type,
                 if sfx \<in> set [''nii'', ''nii.gz'', ''hdr'', ''img'', ''img.gz''] then Nibabel
                 else if sfx \<in> set [''dcm'', ''dicom''] then Pydicom
                 else Itk)"
    and "sfx \<in> set ([''nii'', ''nii.gz'', ''hdr'', ''img'', ''img.gz''] @ [''dcm'', ''dicom''] @
                   [''mhd'', ''mha'', ''nrrd'', ''nhdr'', ''png'', ''bmp'', ''tif'', ''tiff'',
                    ''jpg'', ''jpeg''])"
    by blast+
qed

theorem routing_by_suffix_witness:
  "classify ''a/scan.nii'' = Inr (''nifti'', Nibabel) \<and>
   classify ''a/Scan.NII.GZ'' = Inr (''nifti'', Nibabel) \<and>
   classify ''b.HDR'' = Inr (''analyze'', Nibabel) \<and>
   classify ''IMG'' = Inr (''analyze'', Nibabel) \<and>
   classify ''brain.img.gz'' = Inr (''analyze'', Nibabel) \<and>
   classify ''scan.DCM'' = Inr (''dicom'', Pydicom) \<and>
   classify ''x.y.dicom'' = Inr (''dicom'', Pydicom) \<and>
   classify ''v.mhd'' = Inr (''meta'', Itk) \<and>
   classify ''v.MHA'' = Inr (''meta'', Itk) \<and>
   classify ''n.nrrd'' = Inr (''nrrd'', Itk) \<and>
   classify ''n.nhdr'' = Inr (''nrrd'', Itk) \<and>
   classify ''p.PNG'' = Inr (''png'', Itk) \<and>
   classify ''p.bmp'' = Inr (''bmp'', Itk) \<and>
   classify ''s.tif'' = Inr (''tif'', Itk) \<and>
   classify ''slice.tiff'' = Inr (''tif'', Itk) \<and>
   classify ''p.jpg'' = Inr (''jpg'', Itk) \<and>
   classify ''P.JPEG'' = Inr (''jpg'', Itk)"
proof -
  have c0: "classify ''a/scan.nii'' = Inr (''nifti'', Nibabel)"
  proof -
    have h: "has_suffix ''a/scan.nii'' ''nii'' \<and> ''nii'' \<in> set [''nii'', ''nii.gz'', ''hdr'', ''img'', ''img.gz'']"
      by code_simp
    have t: "image_type_of ''a/scan.nii'' = Some ''nifti''" by code_simp
    from routing_by_suffix [of "''a/scan.nii''", THEN conjunct1, rule_format, OF h]
    show ?thesis by (intro classify_from [OF _ t]) blast
  qed
  have c1: "classify ''a/Scan.NII.GZ'' = Inr (''nifti'', Nibabel)"
  proof -
    have h: "has_suffix ''a/Scan.NII.GZ'' ''nii.gz'' \<and> ''nii.gz'' \<in> set [''nii'', ''nii.gz'', ''hdr'', ''img'', ''img.gz'']"
      by code_simp
    have t: "image_type_of ''a/Scan.NII.GZ'' = Some ''nifti''" by code_simp
    from routing_by_suffix [of "''a/Scan.NII.GZ''", THEN conjunct1, rule_format, OF h]
    show ?thesis by (intro classify_from [OF _ t]) blast
  qed
  have c2: "classify ''b.HDR'' = Inr (''analyze'', Nibabel)"
  proof -
    have h: "has_suffix ''b.HDR'' ''hdr'' \<and> ''hdr'' \<in> set [''nii'', ''nii.gz'', ''hdr'', ''img'', ''img.gz'']"
      by code_simp
    have t: "image_type_of ''b.HDR'' = Some ''analyze''" by code_simp
    from routing_by_suffix [of "''b.HDR''", THEN conjunct1, rule_format, OF h]
    show ?thesis by (intro classify_from [OF _ t]) blast
  qed
  have c3: "classify ''IMG'' = Inr (''analyze'', Nibabel)"
  proof -
    have h: "has_suffix ''IMG'' ''img'' \<and> ''img'' \<in> set [''nii'', ''nii.gz'', ''hdr'', ''img'', ''img.gz'']"
      by code_simp
    have t: "image_type_of ''IMG'' = Some ''analyze''" by code_simp
    from routing_by_suffix [of "''IMG''", THEN conjunct1, rule_format, OF h]
    show ?thesis by (intro classify_from [OF _ t]) blast
  qed
  have c4: "classify ''brain.img.gz'' = Inr (''analyze'', Nibabel)"
  proof -
    have h: "has_suffix ''brain.img.gz'' ''img.gz'' \<and> ''img.gz'' \<in> set [''nii'', ''nii.gz'', ''hdr'', ''img'', ''img.gz'']"
      by code_simp
    have t: "image_type_of ''brain.img.gz'' = Some ''analyze''" by code_simp
    from routing_by_suffix [of "''brain.img.gz''", THEN conjunct1, rule_format, OF h]
    show ?thesis by (intro classify_from [OF _ t]) blast
  qed
  have c5: "classify ''scan.DCM'' = Inr (''dicom'', Pydicom)"
  proof -
    have h: "has_suffix ''scan.DCM'' ''dcm'' \<and> ''dcm'' \<in> set [''dcm'', ''dicom'']"
      by code_simp
    have t: "image_type_of ''scan.DCM'' = Some ''dicom''" by code_simp
    from routing_by_suffix [of "''scan.DCM''", THEN conjunct2, THEN conjunct1, rule_format, OF h]
    show ?thesis by (intro classify_from [OF _ t]) blast
  qed
  have c6: "classify ''x.y.dicom'' = Inr (''dicom'', Pydicom)"
  proof -
    have h: "has_suffix ''x.y.dicom'' ''dicom'' \<and> ''dicom'' \<in> set [''dcm'', ''dicom'']"
      by code_simp
    have t: "image_type_of ''x.y.dicom'' = Some ''dicom''" by code_simp
    from routing_by_suffix [of "''x.y.dicom''", THEN conjunct2, THEN conjunct1, rule_format, OF h]
    show ?thesis by (intro classify_from [OF _ t]) blast
  qed
  have c7: "classify ''v.mhd'' = Inr (''meta'', Itk)"
  proof -
    have h: "has_suffix ''v.mhd'' ''mhd'' \<and> ''mhd'' \<in> set [''mhd'', ''mha'', ''nrrd'', ''nhdr'', ''png'', ''bmp'', ''tif'', ''tiff'', ''jpg'', ''jpeg'']"
      by code_simp
    have t: "image_type_of ''v.mhd'' = Some ''meta''" by code_simp
    from routing_by_suffix [of "''v.mhd''", THEN conjunct2, THEN conjunct2, THEN conjunct1, rule_format, OF h]
    show ?thesis by (intro classify_from [OF _ t]) blast
  qed
  have c8: "classify ''v.MHA'' = Inr (''meta'', Itk)"
  proof -
    have h: "has_suffix ''v.MHA'' ''mha'' \<and> ''mha'' \<in> set [''mhd'', ''mha'', ''nrrd'', ''nhdr'', ''png'', ''bmp'', ''tif'', ''tiff'', ''jpg'', ''jpeg'']"
      by code_simp
    have t: "image_type_of ''v.MHA'' = Some ''meta''" by code_simp
    from routing_by_suffix [of "''v.MHA''", THEN conjunct2, THEN conjunct2, THEN conjunct1, rule_format, OF h]
    show ?thesis by (intro classify_from [OF _ t]) blast
  qed
  have c9: "classify ''n.nrrd'' = Inr (''nrrd'', Itk)"
  proof -
    have h: "has_suffix ''n.nrrd'' ''nrrd'' \<and> ''nrrd'' \<in> set [''mhd'', ''mha'', ''nrrd'', ''nhdr'', ''png'', ''bmp'', ''tif'', ''tiff'', ''jpg'', ''jpeg'']"
      by code_simp
    have t: "image_type_of ''n.nrrd'' = Some ''nrrd''" by code_simp
    from routing_by_suffix [of "''n.nrrd''", THEN conjunct2, THEN conjunct2, THEN conjunct1, rule_format, OF h]
    show ?thesis by (intro classify_from [OF _ t]) blast
  qed
  have c10: "classify ''n.nhdr'' = Inr (''nrrd'', Itk)"
  proof -
    have h: "has_suffix ''n.nhdr'' ''nhdr'' \<and> ''nhdr'' \<in> set [''mhd'', ''mha'', ''nrrd'', ''nhdr'', ''png'', ''bmp'', ''tif'', ''tiff'', ''jpg'', ''jpeg'']"
      by code_simp
    have t: "image_type_of ''n.nhdr'' = Some ''nrrd''" by code_simp
    from routing_by_suffix [of "''n.nhdr''", THEN conjunct2, THEN conjunct2, THEN conjunct1, rule_format, OF h]
    show ?thesis by (intro classify_from [OF _ t]) blast
  qed
  have c11: "classify ''p.PNG'' = Inr (''png'', Itk)"
  proof -
    have h: "has_suffix ''p.PNG'' ''png'' \<and> ''png'' \<in> set [''mhd'', ''mha'', ''nrrd'', ''nhdr'', ''png'', ''bmp'', ''tif'', ''tiff'', ''jpg'', ''jpeg'']"
      by code_simp
    have t: "image_type_of ''p.PNG'' = Some ''png''" by code_simp
    from routing_by_suffix [of "''p.PNG''", THEN conjunct2, THEN conjunct2, THEN conjunct1, rule_format, OF h]
    show ?thesis by (intro classify_from [OF _ t]) blast
  qed
  have c12: "classify ''p.bmp'' = Inr (''bmp'', Itk)"
  proof -
    have h: "has_suffix ''p.bmp'' ''bmp'' \<and> ''bmp'' \<in> set [''mhd'', ''mha'', ''nrrd'', ''nhdr'', ''png'', ''bmp'', ''tif'', ''tiff'', ''jpg'', ''jpeg'']"
      by code_simp
    have t: "image_type_of ''p.bmp'' = Some ''bmp''" by code_simp
    from routing_by_suffix [of "''p.bmp''", THEN conjunct2, THEN conjunct2, THEN conjunct1, rule_format, OF h]
    show ?thesis by (intro classify_from [OF _ t]) blast
  qed
  have c13: "classify ''s.tif'' = Inr (''tif'', Itk)"
  proof -
    have h: "has_suffix ''s.tif'' ''tif'' \<and> ''tif'' \<in> set [''mhd'', ''mha'', ''nrrd'', ''nhdr'', ''png'', ''bmp'', ''tif'', ''tiff'', ''jpg'', ''jpeg'']"
      by code_simp
    have t: "image_type_of ''s.tif'' = Some ''tif''" by code_simp
    from routing_by_suffix [of "''s.tif''", THEN conjunct2, THEN conjunct2, THEN conjunct1, rule_format, OF h]
    show ?thesis by (intro classify_from [OF _ t]) blast
  qed
  have c14: "classify ''slice.tiff'' = Inr (''tif'', Itk)"
  proof -
    have h: "has_suffix ''slice.tiff'' ''tiff'' \<and> ''tiff'' \<in> set [''mhd'', ''mha'', ''nrrd'', ''nhdr'', ''png'', ''bmp'', ''tif'', ''tiff'', ''jpg'', ''jpeg'']"
      by code_simp
    have t: "image_type_of ''slice.tiff'' = Some ''tif''" by code_simp
    from routing_by_suffix [of "''slice.tiff''", THEN conjunct2, THEN conjunct2, THEN conjunct1, rule_format, OF h]
    show ?thesis by (intro classify_from [OF _ t]) blast
  qed
  have c15: "classify ''p.jpg'' = Inr (''jpg'', Itk)"
  proof -
    have h: "has_suffix ''p.jpg'' ''jpg'' \<and> ''jpg'' \<in> set [''mhd'', ''mha'', ''nrrd'', ''nhdr'', ''png'', ''bmp'', ''tif'', ''tiff'', ''jpg'', ''jpeg'']"
      by code_simp
    have t: "image_type_of ''p.jpg'' = Some ''jpg''" by code_simp
    from routing_by_suffix [of "''p.jpg''", THEN conjunct2, THEN conjunct2, THEN conjunct1, rule_format, OF h]
    show ?thesis by (intro classify_from [OF _ t]) blast
  qed
  have c16: "classify ''P.JPEG'' = Inr (''jpg'', Itk)"
  proof -
    have h: "has_suffix ''P.JPEG'' ''jpeg'' \<and> ''jpeg'' \<in> set [''mhd'', ''mha'', ''nrrd'', ''nhdr'', ''png'', ''bmp'', ''tif'', ''tiff'', ''jpg'', ''jpeg'']"
      by code_simp
    have t: "image_type_of ''P.JPEG'' = Some ''jpg''" by code_simp
    from routing_by_suffix [of "''P.JPEG''", THEN conjunct2, THEN conjunct2, THEN conjunct1, rule_format, OF h]
    show ?thesis by (intro classify_from [OF _ t]) blast
  qed
  from c0 c1 c2 c3 c4 c5 c6 c7 c8 c9 c10 c11 c12 c13 c14 c15 c16 show ?thesis by (intro conjI)
qed

section \<open>The existence check\<close>

text \<open>
  Claim C5. For a path that does not refer to an existing file, \<open>load\<close> fails at once with
  the \<^verbatim>\<open>ImageLoadingError\<close> saying that the file does not exist: the run leaves the
  world as it was and adds the existence check to the trace and nothing else, so no
  loader is invoked, in normal loading or in fallback. In every run, of an existing
  path or not, the existence check is made exactly once.
\<close>

theorem missing_file_fails_at_once:
  "(\<not> os_path_exists env path (world s) \<longrightarrow>
      load env path s =
        (Inl (Exc ImageLoadingError (''The supplied image '' @ path @ '' does not exist.'')),
         \<lparr>world = world s, trace = trace s @ [PathExists path]\<rparr>)
      \<and> invoked (trace (snd (load env path s))) = invoked (trace s))
   \<and> checked (trace (snd (load env path s))) = checked (trace s) @ [path]"
  by (simp add: load_checked)
    (simp add: load_def does_not_exist_error_def record_event_def invoked_append)

theorem missing_file_fails_at_once_witness:
  "\<not> os_path_exists nibabel_installed ''missing.nii'' (world (disk [''other.nii'']))
   \<and> load nibabel_installed ''missing.nii'' (disk [''other.nii'']) =
       (Inl (Exc ImageLoadingError ''The supplied image missing.nii does not exist.''),
        \<lparr>world = [''other.nii''], trace = [PathExists ''missing.nii'']\<rparr>)"
  using missing_file_fails_at_once [of nibabel_installed "''missing.nii''" "disk [''other.nii'']"]
  by (simp add: nibabel_installed_def nothing_installed_def disk_def)

section \<open>Normal loading succeeds\<close>

text \<open>
  Claim C6. When the path exists, classification finds a loader and that loader
  succeeds, \<open>load\<close> returns the loader's (array, header) pair in the state the loader
  left, and the run has invoked that loader once and no other: no fallback is attempted.
\<close>

theorem primary_success_returns:
  assumes "os_path_exists env path (world s)"
    and "classify path = Inr (image_type, b)"
    and "invoke env b path (record_event (PathExists path) s) = (Inr res, s')"
  shows "load env path s = (Inr res, s') \<and> invoked (trace s') = invoked (trace s) @ [(b, path)]"
proof -
  from assms(2,3) have "normal_loading env path (record_event (PathExists path) s) = (Inr res, s')"
    by (simp add: normal_loading_def)
  with assms(1) have "load env path s = (Inr res, s')" by (simp add: load_def)
  moreover from invoke_trace(1) [OF assms(3)]
  have "invoked (trace s') = invoked (trace s) @ [(b, path)]"
    by (simp add: record_event_def invoked_append)
  ultimately show ?thesis by simp
qed

theorem primary_success_returns_witness:
  "load nibabel_installed ''s.nii'' (disk [''s.nii'']) =
     (Inr (squeeze volume, 7),
      \<lparr>world = [''s.nii''],
       trace = [PathExists ''s.nii'', Invoke Nibabel ''s.nii'', Import ''nibabel'',
                NibabelLoad ''s.nii'', GetData]\<rparr>)
   \<and> invoked [PathExists ''s.nii'', Invoke Nibabel ''s.nii'', Import ''nibabel'',
                NibabelLoad ''s.nii'', GetData] = [(Nibabel, ''s.nii'')]"
proof -
  have ex: "os_path_exists nibabel_installed ''s.nii'' (world (disk [''s.nii'']))"
    by (simp add: nibabel_installed_def nothing_installed_def disk_def)
  have inv: "invoke nibabel_installed Nibabel ''s.nii'' (record_event (PathExists ''s.nii'') (disk [''s.nii''])) =
     (Inr (squeeze volume, 7),
      \<lparr>world = [''s.nii''],
       trace = [PathExists ''s.nii'', Invoke Nibabel ''s.nii'', Import ''nibabel'',
                NibabelLoad ''s.nii'', GetData]\<rparr>)"
    by (simp add: invoke_def load_nibabel_def and_then_def call_def returns_def record_event_def
        nibabel_installed_def nothing_installed_def only_module_def disk_def)
  from primary_success_returns [OF ex classify_nii inv] show ?thesis
    by (simp add: disk_def)
qed

section \<open>The example worlds, evaluated\<close>

lemma nothing_installed_nibabel:
  "invoke nothing_installed Nibabel p \<lparr>world = w, trace = t\<rparr> =
     (Inl (Exc ImportError ''No module named nibabel''),
      \<lparr>world = w, trace = t @ [Invoke Nibabel p, Import ''nibabel'']\<rparr>)"
  by (simp add: invoke_def load_nibabel_def and_then_def call_def record_event_def
      nothing_installed_def no_module_def)

lemma nothing_installed_pydicom:
  "invoke nothing_installed Pydicom p \<lparr>world = w, trace = t\<rparr> =
     (Inl (Exc ImportError ''No module named dicom''),
      \<lparr>world = w, trace = t @ [Invoke Pydicom p, Import ''dicom'']\<rparr>)"
  by (simp add: invoke_def load_pydicom_def and_then_def call_def record_event_def
      nothing_installed_def no_module_def)

lemma nothing_installed_itk:
  "invoke nothing_installed Itk p \<lparr>world = w, trace = t\<rparr> =
     (Inl (Exc ImportError ''No module named itk''),
      \<lparr>world = w, trace = t @ [Invoke Itk p, Import ''itk'']\<rparr>)"
  by (simp add: invoke_def load_itk_def and_then_def call_def record_event_def
      nothing_installed_def no_module_def)

lemma nibabel_rejecting_nibabel:
  "invoke nibabel_rejecting Nibabel p \<lparr>world = w, trace = t\<rparr> =
     (Inl (Exc OtherException ''not a nifti file''),
      \<lparr>world = w, trace = t @ [Invoke Nibabel p, Import ''nibabel'', NibabelLoad p]\<rparr>)"
  by (simp add: invoke_def load_nibabel_def and_then_def call_def record_event_def
      nibabel_rejecting_def nothing_installed_def only_module_def)

lemma nibabel_rejecting_pydicom:
  "invoke nibabel_rejecting Pydicom p \<lparr>world = w, trace = t\<rparr> =
     (Inl (Exc ImportError ''No module named dicom''),
      \<lparr>world = w, trace = t @ [Invoke Pydicom p, Import ''dicom'']\<rparr>)"
  by (simp add: invoke_def load_pydicom_def and_then_def call_def record_event_def
      nibabel_rejecting_def nothing_installed_def only_module_def no_module_def)

lemma nibabel_rejecting_itk:
  "invoke nibabel_rejecting Itk p \<lparr>world = w, trace = t\<rparr> =
     (Inl (Exc ImportError ''No module named itk''),
      \<lparr>world = w, trace = t @ [Invoke Itk p, Import ''itk'']\<rparr>)"
  by (simp add: invoke_def load_itk_def and_then_def call_def record_event_def
      nibabel_rejecting_def nothing_installed_def only_module_def no_module_def)

lemma nibabel_installed_nibabel:
  "invoke nibabel_installed Nibabel p \<lparr>world = w, trace = t\<rparr> =
     (Inr (squeeze volume, 7),
      \<lparr>world = w, trace = t @ [Invoke Nibabel p, Import ''nibabel'', NibabelLoad p, GetData]\<rparr>)"
  by (simp add: invoke_def load_nibabel_def and_then_def call_def returns_def record_event_def
      nibabel_installed_def nothing_installed_def only_module_def)

lemma nibabel_installed_itk:
  "invoke nibabel_installed Itk p \<lparr>world = w, trace = t\<rparr> =
     (Inl (Exc ImportError ''No module named itk''),
      \<lparr>world = w, trace = t @ [Invoke Itk p, Import ''itk'']\<rparr>)"
  by (simp add: invoke_def load_itk_def and_then_def call_def record_event_def
      nibabel_installed_def nothing_installed_def only_module_def no_module_def)

lemma classify_dcm: "classify ''s.dcm'' = Inr (''dicom'', Pydicom)"
  by code_simp

lemma classify_xyz: "classify ''s.xyz'' = Inl (Exc KeyError [])"
  by code_simp

lemma classify_png: "classify ''s.png'' = Inr (''png'', Itk)"
  by code_simp

lemma exists_on_disk:
  "os_path_exists nothing_installed p (world (disk [p]))"
  "os_path_exists nibabel_rejecting p (world (disk [p]))"
  "os_path_exists nibabel_installed p (world (disk [p]))"
  "os_path_exists dicom_forced_only p (world (disk [p]))"
  by (simp_all add: nothing_installed_def nibabel_rejecting_def nibabel_installed_def
      dicom_forced_only_def disk_def)

lemma check_on_disk:
  "record_event (PathExists p) (disk files) = \<lparr>world = files, trace = [PathExists p]\<rparr>"
  by (simp add: record_event_def disk_def)

lemma dicom_forced_only_pydicom:
  "invoke dicom_forced_only Pydicom p \<lparr>world = w, trace = t\<rparr> =
     (Inr (transpose_arr volume, 5),
      \<lparr>world = w,
       trace = t @ [Invoke Pydicom p, Import ''dicom'', DicomReadFile p False,
                    DicomReadFile p True, PixelArray]\<rparr>)"
  by (simp add: invoke_def load_pydicom_def and_then_def try_except_def call_def returns_def
      record_event_def dicom_forced_only_def nothing_installed_def only_module_def)

lemma dicom_forced_only_nibabel:
  "invoke dicom_forced_only Nibabel p \<lparr>world = w, trace = t\<rparr> =
     (Inl (Exc ImportError ''No module named nibabel''),
      \<lparr>world = w, trace = t @ [Invoke Nibabel p, Import ''nibabel'']\<rparr>)"
  by (simp add: invoke_def load_nibabel_def and_then_def call_def record_event_def
      dicom_forced_only_def nothing_installed_def only_module_def no_module_def)

lemma dicom_forced_only_itk:
  "invoke dicom_forced_only Itk p \<lparr>world = w, trace = t\<rparr> =
     (Inl (Exc ImportError ''No module named itk''),
      \<lparr>world = w, trace = t @ [Invoke Itk p, Import ''itk'']\<rparr>)"
  by (simp add: invoke_def load_itk_def and_then_def call_def record_event_def
      dicom_forced_only_def nothing_installed_def only_module_def no_module_def)

lemma classify_foo_bar: "classify ''scan.FOO.Bar'' = Inl (Exc KeyError [])"
  by code_simp

section \<open>Fallback\<close>

lemma classify_described:
  assumes "classify path = Inr (image_type, b)"
  shows "\<exists>d. map_of type_to_string image_type = Some d"
proof -
  from assms obtain sfx where "map_of suffix_to_type sfx = Some image_type"
    by (auto simp: classify_def lookup_def split: sum.splits option.splits)
  from type_is_registered [OF this] show ?thesis by blast
qed

lemma normal_loading_unclassified:
  "classify path = Inl k \<Longrightarrow> normal_loading env path s = (Inl (image_type_error path), s)"
  by (simp add: normal_loading_def)

lemma normal_loading_failed:
  assumes "classify path = Inr (image_type, b)"
    and "invoke env b path s = (Inl e, s')"
    and "map_of type_to_string image_type = Some d"
  shows "normal_loading env path s =
           (Inl (if cls e = ImportError then dependency_error d e
                 else image_loading_error path d e), s')"
  using assms by (simp add: normal_loading_def lookup_def)

lemma brute_force_exhausted:
  assumes "invoke env Nibabel path s1 = (Inl e1, s2)"
    and "invoke env Pydicom path s2 = (Inl e2, s3)"
    and "invoke env Itk path s3 = (Inl e3, s4)"
  shows "brute_force env load_fallback_order path err s1 = (Inl err, s4)"
  using assms by (simp add: load_fallback_order_def)

lemma load_pending:
  assumes "os_path_exists env path (world s)"
    and "normal_loading env path (record_event (PathExists path) s) = (Inl err, s1)"
  shows "load env path s = brute_force env load_fallback_order path err s1"
  using assms by (simp add: load_def)

text \<open>
  Claim C1. The path exists and all three fallback loaders fail, from the state \<open>s1\<close> the
  primary stage left. Then \<open>load\<close> raises the pending error of the primary stage,
  whatever the fallback failures \<open>e1\<close>, \<open>e2\<close>, \<open>e3\<close> were: the \<^verbatim>\<open>DependencyError\<close> when
  the routed loader failed with an \<^verbatim>\<open>ImportError\<close>, the \<^verbatim>\<open>ImageLoadingError\<close> when it
  failed with any other exception, the \<^verbatim>\<open>ImageTypeError\<close> when the suffix was not
  classified (and no loader ran in the primary stage).
\<close>

theorem exhausted_fallback_raises_pending:
  assumes "os_path_exists env path (world s)"
    and "invoke env Nibabel path s1 = (Inl e1, s2)"
    and "invoke env Pydicom path s2 = (Inl e2, s3)"
    and "invoke env Itk path s3 = (Inl e3, s4)"
  shows "(\<forall>image_type b e.
            classify path = Inr (image_type, b) \<and>
            invoke env b path (record_event (PathExists path) s) = (Inl e, s1) \<and>
            cls e = ImportError \<longrightarrow>
            (\<exists>d. map_of type_to_string image_type = Some d \<and>
                 load env path s = (Inl (dependency_error d e), s4) \<and>
                 cls (dependency_error d e) = DependencyError))
       \<and> (\<forall>image_type b e.
            classify path = Inr (image_type, b) \<and>
            invoke env b path (record_event (PathExists path) s) = (Inl e, s1) \<and>
            cls e \<noteq> ImportError \<longrightarrow>
            (\<exists>d. map_of type_to_string image_type = Some d \<and>
                 load env path s = (Inl (image_loading_error path d e), s4) \<and>
                 cls (image_loading_error path d e) = ImageLoadingError))
       \<and> (\<forall>k. classify path = Inl k \<and> s1 = record_event (PathExists path) s \<longrightarrow>
            load env path s = (Inl (image_type_error path), s4) \<and>
            cls (image_type_error path) = ImageTypeError)"
proof (intro conjI allI impI)
  fix image_type b e
  assume h: "classify path = Inr (image_type, b) \<and>
            invoke env b path (record_event (PathExists path) s) = (Inl e, s1) \<and>
            cls e = ImportError"
  from h classify_described obtain d where d: "map_of type_to_string image_type = Some d" by blast
  from h have c: "classify path = Inr (image_type, b)"
    and i: "invoke env b path (record_event (PathExists path) s) = (Inl e, s1)" by simp_all
  from h normal_loading_failed [OF c i d]
  have "normal_loading env path (record_event (PathExists path) s) = (Inl (dependency_error d e), s1)"
    by simp
  from load_pending [OF assms(1) this] brute_force_exhausted [OF assms(2-4)]
  have "load env path s = (Inl (dependency_error d e), s4)" by simp
  with d show "\<exists>d. map_of type_to_string image_type = Some d \<and>
                 load env path s = (Inl (dependency_error d e), s4) \<and>
                 cls (dependency_error d e) = DependencyError"
    by (auto simp: dependency_error_def)
next
  fix image_type b e
  assume h: "classify path = Inr (image_type, b) \<and>
            invoke env b path (record_event (PathExists path) s) = (Inl e, s1) \<and>
            cls e \<noteq> ImportError"
  from h classify_described obtain d where d: "map_of type_to_string image_type = Some d" by blast
  from h have c: "classify path = Inr (image_type, b)"
    and i: "invoke env b path (record_event (PathExists path) s) = (Inl e, s1)" by simp_all
  from h normal_loading_failed [OF c i d]
  have "normal_loading env path (record_event (PathExists path) s) =
          (Inl (image_loading_error path d e), s1)"
    by simp
  from load_pending [OF assms(1) this] brute_force_exhausted [OF assms(2-4)]
  have "load env path s = (Inl (image_loading_error path d e), s4)" by simp
  with d show "\<exists>d. map_of type_to_string image_type = Some d \<and>
                 load env path s = (Inl (image_loading_error path d e), s4) \<and>
                 cls (image_loading_error path d e) = ImageLoadingError"
    by (auto simp: image_loading_error_def)
next
  fix k
  assume h: "classify path = Inl k \<and> s1 = record_event (PathExists path) s"
  then have "normal_loading env path (record_event (PathExists path) s) =
          (Inl (image_type_error path), s1)"
    by (simp add: normal_loading_unclassified)
  from load_pending [OF assms(1) this] brute_force_exhausted [OF assms(2-4)]
  show "load env path s = (Inl (image_type_error path), s4)" by simp
next
  show "cls (image_type_error path) = ImageTypeError" by (simp add: image_type_error_def)
qed

theorem exhausted_fallback_raises_pending_witness:
  "fst (load nothing_installed ''s.dcm'' (disk [''s.dcm''])) =
     Inl (Exc DependencyError
       (''Loading images of type Dicom - Digital Imaging and Communications in Medicine (.dcm, .dicom)'' @
        '' requires a third-party module that could not be encountered. Reason: No module named dicom.''))
   \<and> fst (load nibabel_rejecting ''s.nii'' (disk [''s.nii''])) =
     Inl (Exc ImageLoadingError
       (''Failes to load image s.nii as NifTi - Neuroimaging Informatics Technology Initiative (.nii, nii.gz)'' @
        ''. Reason signaled by third-party module: not a nifti file''))
   \<and> fst (load nothing_installed ''s.xyz'' (disk [''s.xyz''])) = Inl (image_type_error ''s.xyz'')"
proof -
  have d: "map_of type_to_string ''dicom'' =
      Some ''Dicom - Digital Imaging and Communications in Medicine (.dcm, .dicom)''"
    and n: "map_of type_to_string ''nifti'' =
      Some ''NifTi - Neuroimaging Informatics Technology Initiative (.nii, nii.gz)''"
    by (simp_all add: type_to_string_def)
  note a = exhausted_fallback_raises_pending
    [OF exists_on_disk(1) nothing_installed_nibabel nothing_installed_pydicom nothing_installed_itk,
     of "''s.dcm''" "[''s.dcm'']" "[PathExists ''s.dcm'', Invoke Pydicom ''s.dcm'', Import ''dicom'']"]
  note b = exhausted_fallback_raises_pending
    [OF exists_on_disk(2) nibabel_rejecting_nibabel nibabel_rejecting_pydicom nibabel_rejecting_itk,
     of "''s.nii''" "[''s.nii'']"
        "[PathExists ''s.nii'', Invoke Nibabel ''s.nii'', Import ''nibabel'', NibabelLoad ''s.nii'']"]
  note c = exhausted_fallback_raises_pending
    [OF exists_on_disk(1) nothing_installed_nibabel nothing_installed_pydicom nothing_installed_itk,
     of "''s.xyz''" "[''s.xyz'']" "[PathExists ''s.xyz'']"]
  from a [THEN conjunct1, rule_format, of "''dicom''" Pydicom "Exc ImportError ''No module named dicom''"]
  have 1: "fst (load nothing_installed ''s.dcm'' (disk [''s.dcm''])) =
     Inl (dependency_error ''Dicom - Digital Imaging and Communications in Medicine (.dcm, .dicom)''
           (Exc ImportError ''No module named dicom''))"
    by (auto simp: classify_dcm check_on_disk nothing_installed_pydicom d)
  from b [THEN conjunct2, THEN conjunct1, rule_format, of "''nifti''" Nibabel
          "Exc OtherException ''not a nifti file''"]
  have 2: "fst (load nibabel_rejecting ''s.nii'' (disk [''s.nii''])) =
     Inl (image_loading_error ''s.nii''
           ''NifTi - Neuroimaging Informatics Technology Initiative (.nii, nii.gz)''
           (Exc OtherException ''not a nifti file''))"
    by (auto simp: classify_nii check_on_disk nibabel_rejecting_nibabel n)
  from c [THEN conjunct2, THEN conjunct2, rule_format, of "Exc KeyError []"]
  have 3: "fst (load nothing_installed ''s.xyz'' (disk [''s.xyz''])) = Inl (image_type_error ''s.xyz'')"
    by (simp add: classify_xyz check_on_disk)
  from 1 2 3 show ?thesis
    by (simp add: dependency_error_def image_loading_error_def)
qed

text \<open>
  Claim C2. The path exists and normal loading left a pending error (the routed loader
  failed, or the suffix was not classified). Then \<open>load\<close> invokes nibabel, then pydicom,
  then itk, whichever loader the primary stage had tried, each in the state its
  predecessor left, and returns the pair of the first that succeeds; the pending error
  is dropped. The invocations added to the trace are exactly the loaders tried, in
  that order.
\<close>

theorem fallback_order_first_success:
  assumes "os_path_exists env path (world s)"
    and "normal_loading env path (record_event (PathExists path) s) = (Inl err, s1)"
  shows "(\<forall>res s2.
            invoke env Nibabel path s1 = (Inr res, s2) \<longrightarrow>
            load env path s = (Inr res, s2) \<and>
            invoked (trace s2) = invoked (trace s1) @ [(Nibabel, path)])
       \<and> (\<forall>e1 s2 res s3.
            invoke env Nibabel path s1 = (Inl e1, s2) \<and>
            invoke env Pydicom path s2 = (Inr res, s3) \<longrightarrow>
            load env path s = (Inr res, s3) \<and>
            invoked (trace s3) = invoked (trace s1) @ [(Nibabel, path), (Pydicom, path)])
       \<and> (\<forall>e1 s2 e2 s3 res s4.
            invoke env Nibabel path s1 = (Inl e1, s2) \<and>
            invoke env Pydicom path s2 = (Inl e2, s3) \<and>
            invoke env Itk path s3 = (Inr res, s4) \<longrightarrow>
            load env path s = (Inr res, s4) \<and>
            invoked (trace s4) =
              invoked (trace s1) @ [(Nibabel, path), (Pydicom, path), (Itk, path)])"
proof -
  note l = load_pending [OF assms]
  show ?thesis
  proof (intro conjI allI impI; (elim conjE)?)
    fix res s2
    assume a: "invoke env Nibabel path s1 = (Inr res, s2)"
    with l show "load env path s = (Inr res, s2)" by (simp add: load_fallback_order_def)
    from invoke_trace(1) [OF a]
    show "invoked (trace s2) = invoked (trace s1) @ [(Nibabel, path)]" .
  next
    fix e1 s2 res s3
    assume a: "invoke env Nibabel path s1 = (Inl e1, s2)"
      and b: "invoke env Pydicom path s2 = (Inr res, s3)"
    with l show "load env path s = (Inr res, s3)" by (simp add: load_fallback_order_def)
    from invoke_trace(1) [OF a] invoke_trace(1) [OF b]
    show "invoked (trace s3) = invoked (trace s1) @ [(Nibabel, path), (Pydicom, path)]" by simp
  next
    fix e1 s2 e2 s3 res s4
    assume a: "invoke env Nibabel path s1 = (Inl e1, s2)"
      and b: "invoke env Pydicom path s2 = (Inl e2, s3)"
      and c: "invoke env Itk path s3 = (Inr res, s4)"
    with l show "load env path s = (Inr res, s4)" by (simp add: load_fallback_order_def)
    from invoke_trace(1) [OF a] invoke_trace(1) [OF b] invoke_trace(1) [OF c]
    show "invoked (trace s4) =
            invoked (trace s1) @ [(Nibabel, path), (Pydicom, path), (Itk, path)]" by simp
  qed
qed

theorem fallback_order_first_success_witness:
  "load nibabel_installed ''s.png'' (disk [''s.png'']) =
     (Inr (squeeze volume, 7),
      \<lparr>world = [''s.png''],
       trace = [PathExists ''s.png'', Invoke Itk ''s.png'', Import ''itk'',
                Invoke Nibabel ''s.png'', Import ''nibabel'', NibabelLoad ''s.png'', GetData]\<rparr>)
   \<and> fst (load dicom_forced_only ''s.nii'' (disk [''s.nii''])) = Inr (transpose_arr volume, 5)
   \<and> invoked (trace (snd (load dicom_forced_only ''s.nii'' (disk [''s.nii''])))) =
       [(Nibabel, ''s.nii''), (Nibabel, ''s.nii''), (Pydicom, ''s.nii'')]"
proof -
  have p: "map_of type_to_string ''png'' = Some ''Portable Network Graphics (.png)''"
    and n: "map_of type_to_string ''nifti'' =
      Some ''NifTi - Neuroimaging Informatics Technology Initiative (.nii, nii.gz)''"
    by (simp_all add: type_to_string_def)
  have na: "normal_loading nibabel_installed ''s.png''
              (record_event (PathExists ''s.png'') (disk [''s.png''])) =
      (Inl (dependency_error ''Portable Network Graphics (.png)''
             (Exc ImportError ''No module named itk'')),
       \<lparr>world = [''s.png''],
        trace = [PathExists ''s.png''] @ [Invoke Itk ''s.png'', Import ''itk'']\<rparr>)"
    using normal_loading_failed [OF classify_png nibabel_installed_itk p]
    by (simp add: check_on_disk)
  have nb: "normal_loading dicom_forced_only ''s.nii''
              (record_event (PathExists ''s.nii'') (disk [''s.nii''])) =
      (Inl (dependency_error
             ''NifTi - Neuroimaging Informatics Technology Initiative (.nii, nii.gz)''
             (Exc ImportError ''No module named nibabel'')),
       \<lparr>world = [''s.nii''],
        trace = [PathExists ''s.nii''] @ [Invoke Nibabel ''s.nii'', Import ''nibabel'']\<rparr>)"
    using normal_loading_failed [OF classify_nii dicom_forced_only_nibabel n]
    by (simp add: check_on_disk)
  from fallback_order_first_success [OF exists_on_disk(3) na, THEN conjunct1, rule_format,
      OF nibabel_installed_nibabel]
  have 1: "load nibabel_installed ''s.png'' (disk [''s.png'']) =
     (Inr (squeeze volume, 7),
      \<lparr>world = [''s.png''],
       trace = [PathExists ''s.png'', Invoke Itk ''s.png'', Import ''itk'',
                Invoke Nibabel ''s.png'', Import ''nibabel'', NibabelLoad ''s.png'', GetData]\<rparr>)"
    by simp
  from fallback_order_first_success [OF exists_on_disk(4) nb, THEN conjunct2, THEN conjunct1,
      rule_format, OF conjI, OF dicom_forced_only_nibabel dicom_forced_only_pydicom]
  have 2: "fst (load dicom_forced_only ''s.nii'' (disk [''s.nii''])) = Inr (transpose_arr volume, 5)
   \<and> invoked (trace (snd (load dicom_forced_only ''s.nii'' (disk [''s.nii''])))) =
       [(Nibabel, ''s.nii''), (Nibabel, ''s.nii''), (Pydicom, ''s.nii'')]"
    by simp
  from 1 2 show ?thesis by simp
qed

section \<open>The error for an unrecognized suffix\<close>

lemma load_unclassified_exhausted:
  assumes "os_path_exists env path (world s)"
    and "classify path = Inl k"
    and "invoke env Nibabel path (record_event (PathExists path) s) = (Inl e1, s2)"
    and "invoke env Pydicom path s2 = (Inl e2, s3)"
    and "invoke env Itk path s3 = (Inl e3, s4)"
  shows "load env path s = (Inl (image_type_error path), s4)"
  using load_pending [OF assms(1) normal_loading_unclassified [OF assms(2)]]
    brute_force_exhausted [OF assms(3-5)] by simp

lemma sublist_join_comma: "x \<in> set xs \<Longrightarrow> sublist x (join_comma xs)"
proof (induction xs rule: join_comma.induct)
  case 1
  then show ?case by simp
next
  case (2 y)
  then show ?case by simp
next
  case (3 y z zs)
  show ?case
  proof (cases "x = y")
    case True
    then show ?thesis by simp
  next
    case False
    with 3 have "sublist x (join_comma (z # zs))" by simp
    then obtain ps ss where "join_comma (z # zs) = ps @ x @ ss" by (auto simp: sublist_def)
    then have "join_comma (y # z # zs) = (y @ '', '' @ ps) @ x @ ss" by simp
    then show ?thesis unfolding sublist_def by blast
  qed
qed

lemma sublist_str_list: "x \<in> set xs \<Longrightarrow> sublist x (str_list xs)"
proof -
  assume "x \<in> set xs"
  then have "repr_str x \<in> set (map repr_str xs)" by simp
  from sublist_join_comma [OF this] obtain ps ss where
    "join_comma (map repr_str xs) = ps @ repr_str x @ ss" by (auto simp: sublist_def)
  then have "str_list xs = (''['' @ ps @ [CHR 0x27]) @ x @ ([CHR 0x27] @ ss @ '']'')"
    by (simp add: str_list_def repr_str_def)
  then show ?thesis unfolding sublist_def by blast
qed

text \<open>
  Claim C7. The path exists, its suffix is not classified and no fallback loader
  succeeds. Then \<open>load\<close> raises an \<^verbatim>\<open>ImageTypeError\<close> whose message contains the
  unrecognized ending (the text after the last dot of the path), the path, and every
  description of the type description table.
\<close>

theorem unrecognized_suffix_message_contents:
  assumes "os_path_exists env path (world s)"
    and "classify path = Inl k"
    and "invoke env Nibabel path (record_event (PathExists path) s) = (Inl e1, s2)"
    and "invoke env Pydicom path s2 = (Inl e2, s3)"
    and "invoke env Itk path s3 = (Inl e3, s4)"
  shows "\<exists>message. load env path s = (Inl (Exc ImageTypeError message), s4)
           \<and> sublist (after_last_dot path) message
           \<and> sublist path message
           \<and> (\<forall>description \<in> set (map snd type_to_string). sublist description message)"
proof -
  let ?head = "''The ending '' @ after_last_dot path"
  let ?mid = "'' could not be associated with any known image type. Supported types are: ''"
  let ?m = "''The ending '' @ after_last_dot path @ '' of '' @ path @ ?mid @
            str_list (map snd type_to_string)"
  have l: "load env path s = (Inl (Exc ImageTypeError ?m), s4)"
    using load_unclassified_exhausted [OF assms]
    by (simp add: image_type_error_def last_split_dot)
  have 1: "sublist (after_last_dot path) ?m" by (rule sublist_appendI)
  have "?m = (?head @ '' of '') @ path @ (?mid @ str_list (map snd type_to_string))" by simp
  then have 2: "sublist path ?m" by (simp only: sublist_appendI)
  have 3: "sublist d ?m" if "d \<in> set (map snd type_to_string)" for d
  proof -
    from sublist_str_list [OF that] obtain ps ss where
      "str_list (map snd type_to_string) = ps @ d @ ss" by (auto simp: sublist_def)
    then have "?m = (?head @ '' of '' @ path @ ?mid @ ps) @ d @ ss" by simp
    then show ?thesis by (simp only: sublist_appendI)
  qed
  from l 1 2 3 show ?thesis by blast
qed

theorem unrecognized_suffix_message_contents_witness:
  "\<exists>message. fst (load nothing_installed ''s.xyz'' (disk [''s.xyz''])) =
                Inl (Exc ImageTypeError message)
     \<and> sublist ''xyz'' message
     \<and> sublist ''s.xyz'' message
     \<and> sublist ''NifTi - Neuroimaging Informatics Technology Initiative (.nii, nii.gz)'' message
     \<and> sublist ''Itk/Vtk MetaImage (.mhd, .mha/.raw)'' message
     \<and> sublist ''Joint Photographic Experts Group (.jpg, .jpeg)'' message"
proof -
  have a: "after_last_dot ''s.xyz'' = ''xyz''" by code_simp
  have d: "''NifTi - Neuroimaging Informatics Technology Initiative (.nii, nii.gz)''
             \<in> set (map snd type_to_string)"
    "''Itk/Vtk MetaImage (.mhd, .mha/.raw)'' \<in> set (map snd type_to_string)"
    "''Joint Photographic Experts Group (.jpg, .jpeg)'' \<in> set (map snd type_to_string)"
    by (simp_all add: type_to_string_def)
  from unrecognized_suffix_message_contents
    [OF exists_on_disk(1) classify_xyz, unfolded check_on_disk,
     OF nothing_installed_nibabel nothing_installed_pydicom nothing_installed_itk]
  obtain message where
    "load nothing_installed ''s.xyz'' (disk [''s.xyz'']) =
       (Inl (Exc ImageTypeError message),
        \<lparr>world = [''s.xyz''],
         trace = (([PathExists ''s.xyz''] @ [Invoke Nibabel ''s.xyz'', Import ''nibabel'']) @
                  [Invoke Pydicom ''s.xyz'', Import ''dicom'']) @
                  [Invoke Itk ''s.xyz'', Import ''itk'']\<rparr>)"
    "sublist (after_last_dot ''s.xyz'') message"
    "sublist ''s.xyz'' message"
    "\<forall>description \<in> set (map snd type_to_string). sublist description message"
    by blast
  with a d show ?thesis by auto
qed

text \<open>
  Claim C10. In that same case the ending the message reports is the final dot-segment
  of the path exactly as it stands in the path: neither lowercased nor the compound of
  the last two segments that classification also tried. The rest of the message is the
  path and the list of the descriptions.
\<close>

theorem unrecognized_suffix_reports_last_segment:
  assumes "os_path_exists env path (world s)"
    and "classify path = Inl k"
    and "invoke env Nibabel path (record_event (PathExists path) s) = (Inl e1, s2)"
    and "invoke env Pydicom path s2 = (Inl e2, s3)"
    and "invoke env Itk path s3 = (Inl e3, s4)"
  shows "load env path s =
           (Inl (Exc ImageTypeError
              (''The ending '' @ after_last_dot path @ '' of '' @ path @
               '' could not be associated with any known image type. Supported types are: '' @
               str_list (map snd type_to_string))), s4)"
  using load_unclassified_exhausted [OF assms]
  by (simp add: image_type_error_def last_split_dot)

theorem unrecognized_suffix_reports_last_segment_witness:
  "fst (load nothing_installed ''scan.FOO.Bar'' (disk [''scan.FOO.Bar''])) =
     Inl (Exc ImageTypeError
       (''The ending Bar of scan.FOO.Bar could not be associated with any known image type. '' @
        ''Supported types are: '' @ str_list (map snd type_to_string)))"
proof -
  have a: "after_last_dot ''scan.FOO.Bar'' = ''Bar''" by code_simp
  from unrecognized_suffix_reports_last_segment
    [OF exists_on_disk(1) classify_foo_bar, unfolded check_on_disk,
     OF nothing_installed_nibabel nothing_installed_pydicom nothing_installed_itk] a
  show ?thesis by simp
qed

section \<open>The loaders\<close>

text \<open>
  Claim C9. The pydicom loader, once its import has succeeded: when the first read
  fails with \<^verbatim>\<open>InvalidDicomError\<close> it reads the file again, once and in forced mode,
  and a failure of that second read is the loader's failure; a first read that fails
  with any other exception is not retried. Whenever the loader succeeds, the array it
  returns is the transpose of the pixel array of the dataset it returns: the axes in
  reverse order.
\<close>

theorem load_pydicom_retry_and_transpose:
  assumes "import_module env ''dicom'' (world s) = (Inr (), w1)"
  shows "(\<forall>e w2.
            dicom_read_file env path False w1 = (Inl e, w2) \<and> cls e = InvalidDicomError \<longrightarrow>
            reads (trace (snd (load_pydicom env path s))) =
              reads (trace s) @ [(path, False), (path, True)]
            \<and> (\<forall>e' w3. dicom_read_file env path True w2 = (Inl e', w3) \<longrightarrow>
                  load_pydicom env path s =
                    (Inl e', \<lparr>world = w3,
                              trace = trace s @ [Import ''dicom'', DicomReadFile path False,
                                                 DicomReadFile path True]\<rparr>))
            \<and> (\<forall>img w3 pixels w4.
                  dicom_read_file env path True w2 = (Inr img, w3) \<and>
                  pixel_array env img w3 = (Inr pixels, w4) \<longrightarrow>
                  load_pydicom env path s =
                    (Inr (transpose_arr pixels, img),
                     \<lparr>world = w4,
                      trace = trace s @ [Import ''dicom'', DicomReadFile path False,
                                         DicomReadFile path True, PixelArray]\<rparr>)))
       \<and> (\<forall>e w2.
            dicom_read_file env path False w1 = (Inl e, w2) \<and> cls e \<noteq> InvalidDicomError \<longrightarrow>
            load_pydicom env path s =
              (Inl e, \<lparr>world = w2,
                       trace = trace s @ [Import ''dicom'', DicomReadFile path False]\<rparr>))
       \<and> (\<forall>arr img s'.
            load_pydicom env path s = (Inr (arr, img), s') \<longrightarrow>
            (\<exists>w pixels. pixel_array env img w = (Inr pixels, world s')
               \<and> arr = transpose_arr pixels
               \<and> shape arr = rev (shape pixels)
               \<and> (\<forall>idx. item arr idx = item pixels (rev idx))))"
proof (intro conjI allI impI; (elim conjE)?)
  fix e w2
  assume r: "dicom_read_file env path False w1 = (Inl e, w2)" and c: "cls e = InvalidDicomError"
  obtain r2 w3 where f: "dicom_read_file env path True w2 = (r2, w3)"
    by (cases "dicom_read_file env path True w2")
  show "reads (trace (snd (load_pydicom env path s))) =
              reads (trace s) @ [(path, False), (path, True)]"
  proof (cases r2)
    case (Inl e')
    with assms r c f show ?thesis
      by (simp add: load_pydicom_def and_then_def try_except_def call_def reads_append)
  next
    case (Inr img)
    obtain r3 w4 where "pixel_array env img w3 = (r3, w4)" by (cases "pixel_array env img w3")
    with Inr assms r c f show ?thesis
      by (cases r3)
         (simp_all add: load_pydicom_def and_then_def try_except_def call_def returns_def reads_append)
  qed
next
  fix e w2 e' w3
  assume "dicom_read_file env path False w1 = (Inl e, w2)" "cls e = InvalidDicomError"
    "dicom_read_file env path True w2 = (Inl e', w3)"
  with assms show "load_pydicom env path s =
                    (Inl e', \<lparr>world = w3,
                              trace = trace s @ [Import ''dicom'', DicomReadFile path False,
                                                 DicomReadFile path True]\<rparr>)"
    by (simp add: load_pydicom_def and_then_def try_except_def call_def)
next
  fix e w2 img w3 pixels w4
  assume "dicom_read_file env path False w1 = (Inl e, w2)" "cls e = InvalidDicomError"
    "dicom_read_file env path True w2 = (Inr img, w3)" "pixel_array env img w3 = (Inr pixels, w4)"
  with assms show "load_pydicom env path s =
                    (Inr (transpose_arr pixels, img),
                     \<lparr>world = w4,
                      trace = trace s @ [Import ''dicom'', DicomReadFile path False,
                                         DicomReadFile path True, PixelArray]\<rparr>)"
    by (simp add: load_pydicom_def and_then_def try_except_def call_def returns_def)
next
  fix e w2
  assume "dicom_read_file env path False w1 = (Inl e, w2)" "cls e \<noteq> InvalidDicomError"
  with assms show "load_pydicom env path s =
              (Inl e, \<lparr>world = w2,
                       trace = trace s @ [Import ''dicom'', DicomReadFile path False]\<rparr>)"
    by (simp add: load_pydicom_def and_then_def try_except_def call_def raises_def)
next
  fix arr img s'
  assume ok: "load_pydicom env path s = (Inr (arr, img), s')"
  then have "\<exists>w pixels. pixel_array env img w = (Inr pixels, world s') \<and> arr = transpose_arr pixels"
    using assms
    by (auto simp: load_pydicom_def and_then_def try_except_def call_def returns_def raises_def
        split: prod.splits sum.splits if_splits) blast+
  then obtain w pixels where
    p: "pixel_array env img w = (Inr pixels, world s')" "arr = transpose_arr pixels" by blast
  then have "shape arr = rev (shape pixels)" "\<forall>idx. item arr idx = item pixels (rev idx)"
    by (simp_all add: transpose_arr_def)
  with p show "\<exists>w pixels. pixel_array env img w = (Inr pixels, world s')
               \<and> arr = transpose_arr pixels
               \<and> shape arr = rev (shape pixels)
               \<and> (\<forall>idx. item arr idx = item pixels (rev idx))"
    by blast
qed

theorem load_pydicom_retry_and_transpose_witness:
  "load_pydicom dicom_forced_only ''s.dcm'' (disk [''s.dcm'']) =
     (Inr (transpose_arr volume, 5),
      \<lparr>world = [''s.dcm''],
       trace = [Import ''dicom'', DicomReadFile ''s.dcm'' False, DicomReadFile ''s.dcm'' True,
                PixelArray]\<rparr>)
   \<and> reads (trace (snd (load_pydicom dicom_forced_only ''s.dcm'' (disk [''s.dcm'']))))
       = [(''s.dcm'', False), (''s.dcm'', True)]
   \<and> shape volume = [2, 1, 3]
   \<and> shape (transpose_arr volume) = [3, 1, 2]"
proof -
  have i: "import_module dicom_forced_only ''dicom'' (world (disk [''s.dcm''])) = (Inr (), [''s.dcm''])"
    by (simp add: dicom_forced_only_def nothing_installed_def only_module_def disk_def)
  have r: "dicom_read_file dicom_forced_only ''s.dcm'' False [''s.dcm''] =
             (Inl (Exc InvalidDicomError ''File is missing DICM marker''), [''s.dcm''])
           \<and> cls (Exc InvalidDicomError ''File is missing DICM marker'') = InvalidDicomError"
    by (simp add: dicom_forced_only_def nothing_installed_def)
  have f: "dicom_read_file dicom_forced_only ''s.dcm'' True [''s.dcm''] = (Inr 5, [''s.dcm''])
           \<and> pixel_array dicom_forced_only 5 [''s.dcm''] = (Inr volume, [''s.dcm''])"
    by (simp add: dicom_forced_only_def nothing_installed_def)
  note t = load_pydicom_retry_and_transpose [OF i, of "''s.dcm''", THEN conjunct1, rule_format, OF r]
  from t [THEN conjunct1] t [THEN conjunct2, THEN conjunct2, rule_format, OF f]
  show ?thesis by (simp add: disk_def transpose_arr_def volume_def)
qed

lemma unsqueeze_squeeze_index:
  "valid_index sh idx \<Longrightarrow> unsqueeze_index sh (squeeze_index sh idx) = idx"
  by (induction sh idx rule: valid_index.induct) auto

lemma valid_squeeze_index:
  "valid_index sh idx \<Longrightarrow> valid_index (filter (\<lambda>d. d \<noteq> 1) sh) (squeeze_index sh idx)"
  by (induction sh idx rule: valid_index.induct) auto

text \<open>
  Claim C8, as the code has it. When the import, \<^verbatim>\<open>nibabel.load\<close> and \<^verbatim>\<open>get_data\<close>
  succeed, the nibabel loader returns the native image object as header and, as array,
  the decoded data with every axis of length one removed, wherever it stands in the
  shape: the shape keeps the other axes in order, and every element of the decoded data
  is found at its index without the coordinates of the removed axes.
\<close>

theorem load_nibabel_squeezes:
  assumes "import_module env ''nibabel'' (world s) = (Inr (), w1)"
    and "nibabel_load env path w1 = (Inr img, w2)"
    and "get_data env img w2 = (Inr decoded, w3)"
  shows "\<exists>arr. load_nibabel env path s =
                 (Inr (arr, img),
                  \<lparr>world = w3, trace = trace s @ [Import ''nibabel'', NibabelLoad path, GetData]\<rparr>)
           \<and> shape arr = filter (\<lambda>d. d \<noteq> 1) (shape decoded)
           \<and> 1 \<notin> set (shape arr)
           \<and> (\<forall>idx. valid_index (shape decoded) idx \<longrightarrow>
                  valid_index (shape arr) (squeeze_index (shape decoded) idx) \<and>
                  item arr (squeeze_index (shape decoded) idx) = item decoded idx)"
proof -
  from assms have "load_nibabel env path s =
                 (Inr (squeeze decoded, img),
                  \<lparr>world = w3, trace = trace s @ [Import ''nibabel'', NibabelLoad path, GetData]\<rparr>)"
    by (simp add: load_nibabel_def and_then_def call_def returns_def)
  moreover have "shape (squeeze decoded) = filter (\<lambda>d. d \<noteq> 1) (shape decoded)"
    by (simp add: squeeze_def)
  moreover have "1 \<notin> set (shape (squeeze decoded))" by (simp add: squeeze_def)
  moreover have "valid_index (shape (squeeze decoded)) (squeeze_index (shape decoded) idx) \<and>
      item (squeeze decoded) (squeeze_index (shape decoded) idx) = item decoded idx"
    if "valid_index (shape decoded) idx" for idx
    using that valid_squeeze_index [OF that] by (simp add: squeeze_def unsqueeze_squeeze_index)
  ultimately show ?thesis by blast
qed

theorem load_nibabel_squeezes_witness:
  "\<exists>arr. load_nibabel nibabel_installed ''s.nii'' (disk [''s.nii'']) =
           (Inr (arr, 7),
            \<lparr>world = [''s.nii''], trace = [Import ''nibabel'', NibabelLoad ''s.nii'', GetData]\<rparr>)
     \<and> shape arr = [2, 3]
     \<and> item arr [1, 2] = item volume [1, 0, 2]"
proof -
  have i: "import_module nibabel_installed ''nibabel'' (world (disk [''s.nii''])) = (Inr (), [''s.nii''])"
    and l: "nibabel_load nibabel_installed ''s.nii'' [''s.nii''] = (Inr 7, [''s.nii''])"
    and g: "get_data nibabel_installed 7 [''s.nii''] = (Inr volume, [''s.nii''])"
    by (simp_all add: nibabel_installed_def nothing_installed_def only_module_def disk_def)
  have v: "valid_index (shape volume) [1, 0, 2]" by (simp add: volume_def)
  have q: "squeeze_index (shape volume) [1, 0, 2] = [1, 2]" by (simp add: volume_def)
  from load_nibabel_squeezes [OF i l g] obtain arr where
    a: "load_nibabel nibabel_installed ''s.nii'' (disk [''s.nii'']) =
         (Inr (arr, 7),
          \<lparr>world = [''s.nii''],
           trace = trace (disk [''s.nii'']) @ [Import ''nibabel'', NibabelLoad ''s.nii'', GetData]\<rparr>)"
    and b: "shape arr = filter (\<lambda>d. d \<noteq> 1) (shape volume)"
    and c: "\<forall>idx. valid_index (shape volume) idx \<longrightarrow>
                  valid_index (shape arr) (squeeze_index (shape volume) idx) \<and>
                  item arr (squeeze_index (shape volume) idx) = item volume idx"
    by blast
  from c v q have "item arr [1, 2] = item volume [1, 0, 2]" by auto
  with a b show ?thesis by (simp add: disk_def volume_def)
qed

text \<open>
  Claim C8, as the specification words it, says that a leading or trailing axis of
  length one is removed. A decoded array of shape (2, 1, 3) has none, so it would be
  returned as it is; the loader returns shape (2, 3).
\<close>

theorem load_nibabel_interior_axis_counterexample:
  "get_data nibabel_installed 7 [''s.nii''] = (Inr volume, [''s.nii''])
   \<and> fst (load_nibabel nibabel_installed ''s.nii'' (disk [''s.nii''])) = Inr (squeeze volume, 7)
   \<and> shape volume = [2, 1, 3]
   \<and> spec_trim_singletons (shape volume) = [2, 1, 3]
   \<and> shape (squeeze volume) = [2, 3]
   \<and> shape (squeeze volume) \<noteq> spec_trim_singletons (shape volume)"
  by (simp add: load_nibabel_def and_then_def call_def returns_def nibabel_installed_def
      nothing_installed_def only_module_def disk_def volume_def squeeze_def
      spec_trim_singletons_def)

end
